theory Spec2Isabelle
  imports Main "HOL-Library.Char_ord" "HOL-Library.Signed_Division"
begin

section \<open>Go strings\<close>

text \<open>
  A Go string is a sequence of bytes, here a \<^typ>\<open>string\<close>. The functions of package
  \<^verbatim>\<open>strings\<close> that adv.go calls are modelled on ASCII text: a byte above 0x7F is treated
  as an ordinary character that is neither white space nor a letter (Go would decode
  UTF-8 there and consult the Unicode tables).
\<close>

definition isSpace :: "char \<Rightarrow> bool" where
  \<comment> \<open>the ASCII white space of \<^verbatim>\<open>strings.TrimSpace\<close> and \<^verbatim>\<open>strings.Fields\<close>:
      tab, newline, vertical tab, form feed, carriage return, space\<close>
  "isSpace c \<longleftrightarrow> c \<in> set [CHR 0x09, CHR 0x0A, CHR 0x0B, CHR 0x0C, CHR 0x0D, CHR 0x20]"

definition TrimFunc :: "(char \<Rightarrow> bool) \<Rightarrow> string \<Rightarrow> string" where
  "TrimFunc f s = rev (dropWhile f (rev (dropWhile f s)))"

definition TrimSpace :: "string \<Rightarrow> string" where
  "TrimSpace s = TrimFunc isSpace s"

definition Trim :: "string \<Rightarrow> string \<Rightarrow> string" where
  \<comment> \<open>\<^verbatim>\<open>strings.Trim(s, cutset)\<close>: leading and trailing characters of the cutset removed\<close>
  "Trim s cutset = TrimFunc (\<lambda>c. c \<in> set cutset) s"

definition isUpperAscii :: "char \<Rightarrow> bool" where
  "isUpperAscii c \<longleftrightarrow> CHR ''A'' \<le> c \<and> c \<le> CHR ''Z''"

definition isLowerAscii :: "char \<Rightarrow> bool" where
  "isLowerAscii c \<longleftrightarrow> CHR ''a'' \<le> c \<and> c \<le> CHR ''z''"

definition toLowerChar :: "char \<Rightarrow> char" where
  \<comment> \<open>an upper-case ASCII letter gets bit 5 set\<close>
  "toLowerChar c =
     (if isUpperAscii c
      then (case c of Char b0 b1 b2 b3 b4 b5 b6 b7 \<Rightarrow> Char b0 b1 b2 b3 b4 True b6 b7)
      else c)"

definition toUpperChar :: "char \<Rightarrow> char" where
  "toUpperChar c =
     (if isLowerAscii c
      then (case c of Char b0 b1 b2 b3 b4 b5 b6 b7 \<Rightarrow> Char b0 b1 b2 b3 b4 False b6 b7)
      else c)"

definition ToLower :: "string \<Rightarrow> string" where
  "ToLower s = map toLowerChar s"

definition ToUpper :: "string \<Rightarrow> string" where
  "ToUpper s = map toUpperChar s"

definition HasPrefix :: "string \<Rightarrow> string \<Rightarrow> bool" where
  "HasPrefix s pre \<longleftrightarrow> take (length pre) s = pre"

fun splitAcc :: "char \<Rightarrow> string \<Rightarrow> string \<Rightarrow> string list" where
  "splitAcc sep cur [] = [cur]"
| "splitAcc sep cur (c # cs) =
     (if c = sep then cur # splitAcc sep [] cs else splitAcc sep (cur @ [c]) cs)"

definition Split :: "string \<Rightarrow> char \<Rightarrow> string list" where
  \<comment> \<open>\<^verbatim>\<open>strings.Split(s, sep)\<close> for a separator of one byte; \<^verbatim>\<open>Split("", sep)\<close> is
      the list holding one empty string\<close>
  "Split s sep = splitAcc sep [] s"

fun fieldsAcc :: "string \<Rightarrow> string \<Rightarrow> string list" where
  "fieldsAcc cur [] = (if cur = [] then [] else [cur])"
| "fieldsAcc cur (c # cs) =
     (if isSpace c then (if cur = [] then fieldsAcc [] cs else cur # fieldsAcc [] cs)
      else fieldsAcc (cur @ [c]) cs)"

definition Fields :: "string \<Rightarrow> string list" where
  \<comment> \<open>\<^verbatim>\<open>strings.Fields\<close>: the maximal runs of characters that are not white space\<close>
  "Fields s = fieldsAcc [] s"

fun Join :: "string list \<Rightarrow> string \<Rightarrow> string" where
  "Join [] sep = []"
| "Join [x] sep = x"
| "Join (x # y # zs) sep = x @ sep @ Join (y # zs) sep"

definition ReplaceAll_CR :: "string \<Rightarrow> string" where
  \<comment> \<open>\<^verbatim>\<open>strings.ReplaceAll(text, "\r", "")\<close>\<close>
  "ReplaceAll_CR s = filter (\<lambda>c. c \<noteq> CHR 0x0D) s"

definition isDigit :: "char \<Rightarrow> bool" where
  "isDigit c \<longleftrightarrow> CHR ''0'' \<le> c \<and> c \<le> CHR ''9''"

definition digitVal :: "char \<Rightarrow> int" where
  "digitVal c = int (of_char c) - 48"

definition decimal :: "string \<Rightarrow> int" where
  "decimal ds = foldl (\<lambda>n c. 10 * n + digitVal c) 0 ds"

definition Atoi :: "string \<Rightarrow> int option" where
  \<comment> \<open>\<^verbatim>\<open>strconv.Atoi\<close>: an optional sign, one or more decimal digits, and a value that
      fits the 64-bit \<^verbatim>\<open>int\<close>; \<open>None\<close> is the error result\<close>
  "Atoi s =
     (let (neg, ds) = (case s of
                         c # r \<Rightarrow> if c = CHR ''-'' then (True, r)
                                  else if c = CHR ''+'' then (False, r) else (False, s)
                       | [] \<Rightarrow> (False, s))
      in if ds = [] \<or> \<not> list_all isDigit ds then None
         else let v = (if neg then - decimal ds else decimal ds)
              in if - (2 ^ 63) \<le> v \<and> v < 2 ^ 63 then Some v else None)"

subsection \<open>Helpers of adv.go\<close>

fun dropLeadingBlank :: "string list \<Rightarrow> string list" where
  \<comment> \<open>\<^verbatim>\<open>for len(lines) > 0 && strings.TrimSpace(lines[0]) == "" { lines = lines[1:] }\<close>\<close>
  "dropLeadingBlank [] = []"
| "dropLeadingBlank (l # ls) = (if TrimSpace l = [] then dropLeadingBlank ls else l # ls)"

definition dropTrailingBlank :: "string list \<Rightarrow> string list" where
  "dropTrailingBlank ls = rev (dropLeadingBlank (rev ls))"

fun collapseBlank :: "bool \<Rightarrow> string list \<Rightarrow> string list" where
  \<comment> \<open>the last loop of \<^verbatim>\<open>normalizeText\<close>; the flag is the variable \<^verbatim>\<open>blank\<close>\<close>
  "collapseBlank blank [] = []"
| "collapseBlank blank (l # ls) =
     (if TrimSpace l = []
      then (if \<not> blank then [] # collapseBlank True ls else collapseBlank True ls)
      else l # collapseBlank False ls)"

definition normalizeText :: "string \<Rightarrow> string" where
  "normalizeText text =
     Join (collapseBlank False
             (dropTrailingBlank (dropLeadingBlank (Split (ReplaceAll_CR text) CHR 0x0A))))
          [CHR 0x0A]"

definition titleWord :: "string \<Rightarrow> string" where
  \<comment> \<open>\<^verbatim>\<open>strings.ToUpper(string(w[0])) + strings.ToLower(w[1:])\<close>, for \<^verbatim>\<open>len(w) > 0\<close>\<close>
  "titleWord w = (case w of [] \<Rightarrow> [] | c # cs \<Rightarrow> ToUpper [c] @ ToLower cs)"

definition titleCase :: "string \<Rightarrow> string" where
  "titleCase s = Join (map titleWord (Fields s)) '' ''"

fun contains :: "string list \<Rightarrow> string \<Rightarrow> bool" where
  "contains [] s = False"
| "contains (v # slice) s = (if v = s then True else contains slice s)"

section \<open>Data model\<close>

record Message =
  Role :: string
  Content :: string

record Npc =
  Bio :: string
  Backstory :: string
  Affinity :: int

text \<open>
  \<^verbatim>\<open>MapGraph\<close> is a Go \<^verbatim>\<open>map[string]map[string]bool\<close>; the neighbours of a location are
  the keys of its inner map (\<^verbatim>\<open>drawMap\<close> ranges over the keys). Go's \<^verbatim>\<open>int\<close> has 64 bits;
  the stats stay within 8..18 and an affinity counts completed conversations, so both
  are modelled as \<^typ>\<open>int\<close>.
\<close>

record PlayerState =
  Stats :: "string \<rightharpoonup> int"
  Inventory :: "string list"
  Journal :: "string list"
  VisitedLocations :: "string list"
  MapGraph :: "string \<rightharpoonup> (string \<rightharpoonup> bool)"
  CurrentLocation :: string

record SaveData =
  NpcData :: "string \<rightharpoonup> Npc"
  SavedPlayerState :: PlayerState
  History :: "Message list"

subsection \<open>The world outside the program\<close>

text \<open>
  One HTTP attempt of \<^verbatim>\<open>callOpenAI\<close> ends in one of the ways the code distinguishes.
\<close>

datatype attempt =
    RequestError       \<comment> \<open>\<^verbatim>\<open>http.NewRequest\<close> failed\<close>
  | TransportError     \<comment> \<open>\<^verbatim>\<open>client.Do\<close> failed\<close>
  | ReadError          \<comment> \<open>the body could not be read\<close>
  | HttpError          \<comment> \<open>a status other than 200\<close>
  | UnmarshalError     \<comment> \<open>the body is not the expected JSON\<close>
  | NoChoices          \<comment> \<open>a well-formed answer without choices\<close>
  | Reply string       \<comment> \<open>the content of the first choice\<close>

text \<open>
  The environment fixes everything the program does not control: what the \<open>k\<close>-th HTTP
  attempt of the process returns for a given payload, the raw values of the random
  generator, whether the \<open>k\<close>-th file operation succeeds, and the API key.
\<close>

record env =
  net :: "nat \<Rightarrow> Message list \<Rightarrow> attempt"
  rnd :: "nat \<Rightarrow> nat"
  fsOk :: "nat \<Rightarrow> bool"
  apiKey :: string

text \<open>
  The globals of adv.go, the file \<^verbatim>\<open>savegame.json\<close> (absent, or the data last written;
  the JSON encoding is taken to round-trip), the lines still to be read from standard
  input (a terminal: one line per read), and counters of what was consumed from the
  environment. \<open>oracleCalls\<close> counts the calls of \<^verbatim>\<open>callOpenAI\<close>. Terminal output is not
  part of the state.
\<close>

record world =
  npcData :: "string \<rightharpoonup> Npc"
  playerState :: PlayerState
  history :: "Message list"
  pruneEnabled :: bool
  sceneDescriptions :: "string \<rightharpoonup> string"
  itemsData :: "string \<rightharpoonup> string"
  disk :: "SaveData option"
  stdin :: "string list"
  sent :: nat
  oracleCalls :: nat
  drawn :: nat
  fsOps :: nat

definition summaryPrompt :: string where
  "summaryPrompt = ''Summarize the following adventure context in two sentences.''"

definition placeholderResponse :: string where
  "placeholderResponse = ''[The realm is silent; no response comes.]''"

definition msg :: "string \<Rightarrow> string \<Rightarrow> Message" where
  "msg r c = \<lparr>Role = r, Content = c\<rparr>"

section \<open>The oracle call\<close>

fun callAttempts :: "env \<Rightarrow> Message list \<Rightarrow> nat \<Rightarrow> world \<Rightarrow> string \<times> world" where
  \<comment> \<open>the loop \<^verbatim>\<open>for attempt := 0; attempt < 3; attempt++\<close>, by attempts left\<close>
  "callAttempts e msgs 0 w = (placeholderResponse, w)"
| "callAttempts e msgs (Suc n) w =
     (let w1 = w\<lparr>sent := sent w + 1\<rparr> in
      case net e (sent w) msgs of
        RequestError \<Rightarrow> (placeholderResponse, w)
      | TransportError \<Rightarrow> callAttempts e msgs n w1
      | ReadError \<Rightarrow> (placeholderResponse, w1)
      | HttpError \<Rightarrow> callAttempts e msgs n w1
      | UnmarshalError \<Rightarrow> (placeholderResponse, w1)
      | NoChoices \<Rightarrow> (placeholderResponse, w1)
      | Reply c \<Rightarrow> (TrimSpace c, w1))"

definition callOpenAI :: "env \<Rightarrow> Message list \<Rightarrow> world \<Rightarrow> string \<times> world" where
  \<comment> \<open>\<^verbatim>\<open>json.Marshal\<close> cannot fail on a request of strings and numbers\<close>
  "callOpenAI e msgs w = callAttempts e msgs 3 (w\<lparr>oracleCalls := oracleCalls w + 1\<rparr>)"

section \<open>Context window\<close>

definition pruneHistory :: "env \<Rightarrow> Message list \<Rightarrow> world \<Rightarrow> Message list \<times> world" where
  "pruneHistory e msgs w =
     (let maxMsgs = 30; keepTail = 10 in
      if length msgs \<le> maxMsgs then (msgs, w)
      else
        let toSumm = take (length msgs - keepTail) msgs;
            tail = drop (length msgs - keepTail) msgs;
            prompt = [msg ''system'' summaryPrompt] @ toSumm;
            (summary, w1) = callOpenAI e prompt w;
            newHist = [msg ''system'' (''SUMMARY: '' @ summary)] @ tail
        in (newHist, w1))"

section \<open>Environment introspection\<close>

fun collectNames :: "string list \<Rightarrow> string list \<Rightarrow> string list" where
  \<comment> \<open>the loop \<^verbatim>\<open>for _, p := range parts\<close> of \<^verbatim>\<open>listItems\<close>, \<^verbatim>\<open>listExits\<close> and
      \<^verbatim>\<open>listNpcs\<close> (the three bodies are the same); the first argument is \<^verbatim>\<open>out\<close>\<close>
  "collectNames out [] = out"
| "collectNames out (p # parts) =
     (let name = Trim (TrimSpace p) ''.!?:;'' in
      if name \<noteq> [] \<and> ToLower name \<noteq> ''none''
      then collectNames (out @ [name]) parts
      else collectNames out parts)"

definition parseList :: "string \<Rightarrow> string list" where
  \<comment> \<open>what the three functions do with the reply \<^verbatim>\<open>raw\<close>\<close>
  "parseList raw = collectNames [] (Split raw CHR '','')"

definition listItems :: "env \<Rightarrow> Message list \<Rightarrow> world \<Rightarrow> string list \<times> world" where
  "listItems e msgs w =
     (let prompt = msgs @ [msg ''user''
            (''List, in a comma-separated list, all objects present in this scene. '' @
             ''If none, reply '' @ [CHR 0x27] @ ''None'' @ [CHR 0x27] @ ''.'')];
          (raw, w1) = callOpenAI e prompt w
      in (parseList raw, w1))"

definition listExits :: "env \<Rightarrow> Message list \<Rightarrow> world \<Rightarrow> string list \<times> world" where
  "listExits e msgs w =
     (let prompt = msgs @ [msg ''user''
            (''List, in a comma-separated list, all exits or directions available '' @
             ''from this scene. If none, reply '' @ [CHR 0x27] @ ''None'' @ [CHR 0x27] @ ''.'')];
          (raw, w1) = callOpenAI e prompt w
      in (parseList raw, w1))"

definition listNpcs :: "env \<Rightarrow> Message list \<Rightarrow> world \<Rightarrow> string list \<times> world" where
  "listNpcs e msgs w =
     (let prompt = msgs @ [msg ''user''
            (''List, in a comma-separated list, the FULL NAMES of all NPCs currently '' @
             ''present in this scene. If none, reply '' @ [CHR 0x27] @ ''None'' @ [CHR 0x27] @ ''.'')];
          (raw, w1) = callOpenAI e prompt w
      in (parseList raw, w1))"

definition printEnvironmentSummary :: "env \<Rightarrow> Message list \<Rightarrow> world \<Rightarrow> world" where
  \<comment> \<open>the three lists are printed only\<close>
  "printEnvironmentSummary e msgs w =
     (let (exits, w1) = listExits e msgs w;
          (npcs, w2) = listNpcs e msgs w1;
          (items, w3) = listItems e msgs w2
      in w3)"

section \<open>Player state and persistence\<close>

definition Intn :: "env \<Rightarrow> nat \<Rightarrow> world \<Rightarrow> int \<times> world" where
  \<comment> \<open>\<^verbatim>\<open>rand.Intn(n)\<close>: the next raw value of the generator, reduced to \<open>[0, n)\<close>\<close>
  "Intn e n w = (int (rnd e (drawn w) mod n), w\<lparr>drawn := drawn w + 1\<rparr>)"

fun rollStats :: "env \<Rightarrow> string list \<Rightarrow> (string \<rightharpoonup> int) \<Rightarrow> world \<Rightarrow> (string \<rightharpoonup> int) \<times> world" where
  \<comment> \<open>the loop \<^verbatim>\<open>for _, s := range []string{...} { stats[s] = rand.Intn(11) + 8 }\<close>\<close>
  "rollStats e [] stats w = (stats, w)"
| "rollStats e (s # ss) stats w =
     (let (r, w1) = Intn e 11 w in rollStats e ss (stats(s \<mapsto> r + 8)) w1)"

definition statNames :: "string list" where
  "statNames = [''STR'', ''DEX'', ''CON'', ''INT'', ''WIS'', ''CHA'']"

definition initPlayerState :: "env \<Rightarrow> world \<Rightarrow> world" where
  "initPlayerState e w =
     (let (stats, w1) = rollStats e statNames Map.empty w in
      w1\<lparr>playerState :=
           \<lparr>Stats = stats, Inventory = [], Journal = [], VisitedLocations = [],
            MapGraph = Map.empty, CurrentLocation = []\<rparr>\<rparr>)"

definition saveGame :: "env \<Rightarrow> Message list \<Rightarrow> world \<Rightarrow> world" where
  \<comment> \<open>\<^verbatim>\<open>json.MarshalIndent\<close> cannot fail on this data; when \<^verbatim>\<open>ioutil.WriteFile\<close> fails the
      file keeps what it held\<close>
  "saveGame e msgs w =
     (let d = \<lparr>NpcData = npcData w, SavedPlayerState = playerState w, History = msgs\<rparr>;
          w1 = w\<lparr>fsOps := fsOps w + 1\<rparr>
      in if fsOk e (fsOps w) then w1\<lparr>disk := Some d\<rparr> else w1)"

definition loadGame :: "env \<Rightarrow> world \<Rightarrow> Message list option \<times> world" where
  \<comment> \<open>\<open>None\<close> is the error result: the file is missing or cannot be read\<close>
  "loadGame e w =
     (let w1 = w\<lparr>fsOps := fsOps w + 1\<rparr> in
      if fsOk e (fsOps w)
      then (case disk w of
              None \<Rightarrow> (None, w1)
            | Some d \<Rightarrow> (Some (History d),
                         w1\<lparr>npcData := NpcData d, playerState := SavedPlayerState d\<rparr>))
      else (None, w1))"

section \<open>NPC personas and conversations\<close>

definition personaPrompt :: "string \<Rightarrow> string" where
  "personaPrompt npcName =
     ''You previously described an NPC named '' @ [CHR 0x27] @ npcName @ [CHR 0x27] @
     ''.\<newline>'' @
     ''Please provide TWO clearly labeled sections:\<newline>'' @
     ''BIO: One sentence describing who they are (name/title/role).\<newline>'' @
     ''BACKSTORY: Two sentences about their past, interests, or beliefs.\<newline>'' @
     ''Respond exactly in this format.''"

fun scanPersona :: "string list \<Rightarrow> string \<times> string \<Rightarrow> string \<times> string" where
  \<comment> \<open>the loop over the lines of the reply; the pair is \<^verbatim>\<open>bio, backstory\<close>\<close>
  "scanPersona [] (bio, backstory) = (bio, backstory)"
| "scanPersona (line # lines) (bio, backstory) =
     (let up = ToUpper line;
          bio1 = (if HasPrefix up ''BIO:'' then TrimSpace (drop 4 line) else bio);
          backstory1 = (if HasPrefix up ''BACKSTORY:'' then TrimSpace (drop 9 line)
                        else backstory)
      in scanPersona lines (bio1, backstory1))"

definition personaFields :: "string \<Rightarrow> string \<Rightarrow> string \<times> string" where
  \<comment> \<open>lines 334 to 349 of \<^verbatim>\<open>startConversation\<close>: the reply parsed, then the fallbacks\<close>
  "personaFields npcName summary =
     (let (bio, backstory) = scanPersona (Split summary CHR 0x0A) ([], []);
          bio2 = (if bio = [] then npcName @ '', a person of note.'' else bio);
          backstory2 = (if backstory = []
                        then ''They prefer to keep much of their past private.''
                        else backstory)
      in (bio2, backstory2))"

definition ensureNpc :: "env \<Rightarrow> string \<Rightarrow> world \<Rightarrow> world" where
  \<comment> \<open>the branch \<^verbatim>\<open>if _, ok := npcData[npcName]; !ok\<close> of \<^verbatim>\<open>startConversation\<close>\<close>
  "ensureNpc e npcName w =
     (case npcData w npcName of
        Some info \<Rightarrow> w
      | None \<Rightarrow>
          let last = (if length (history w) > 6
                      then drop (length (history w) - 6) (history w) else history w);
              prompt = last @ [msg ''user'' (personaPrompt npcName)];
              (summary, w1) = callOpenAI e prompt w;
              (bio, backstory) = personaFields npcName summary
          in w1\<lparr>npcData := (npcData w1)
                   (npcName \<mapsto> \<lparr>Bio = bio, Backstory = backstory, Affinity = 0\<rparr>)\<rparr>)"

definition conversationPrompt :: "string \<Rightarrow> Npc \<Rightarrow> string" where
  "conversationPrompt npcName info =
     ''You are '' @ npcName @ ''.\<newline>'' @ Bio info @ ''\<newline>Backstory: '' @
     Backstory info @ ''\<newline>\<newline>'' @
     ''Speak in first-person as yourself. ALWAYS refer to yourself by that exact name. '' @
     ''When the player says '' @ [CHR 0x27] @ ''goodbye'' @ [CHR 0x27] @ '', '' @
     [CHR 0x27] @ ''exit'' @ [CHR 0x27] @ '', or '' @ [CHR 0x27] @ ''bye'' @ [CHR 0x27] @
     '', end the conversation politely.''"

definition bumpAffinity :: "string \<Rightarrow> world \<Rightarrow> world" where
  \<comment> \<open>\<^verbatim>\<open>info.Affinity++\<close> through the pointer \<^verbatim>\<open>info := npcData[npcName]\<close>; the entry
      exists since the bootstrap branch has run\<close>
  "bumpAffinity npcName w =
     (case npcData w npcName of
        None \<Rightarrow> w
      | Some info \<Rightarrow>
          w\<lparr>npcData := (npcData w)(npcName \<mapsto> info\<lparr>Affinity := Affinity info + 1\<rparr>)\<rparr>)"

definition isFarewell :: "string \<Rightarrow> bool" where
  "isFarewell low \<longleftrightarrow> low = ''goodbye'' \<or> low = ''exit'' \<or> low = ''bye''"

fun converse :: "env \<Rightarrow> string \<Rightarrow> Message list \<Rightarrow> string list \<Rightarrow> world \<Rightarrow> (string list \<times> world) option" where
  \<comment> \<open>the loop of \<^verbatim>\<open>startConversation\<close> over the lines of standard input. At the end
      of input \<^verbatim>\<open>ReadString\<close> keeps returning the empty string and the loop never
      ends: \<open>None\<close>. Otherwise the lines left and the world at the \<^verbatim>\<open>return\<close>.\<close>
  "converse e npcName conv [] w = None"
| "converse e npcName conv (l # ls) w =
     (let line = TrimSpace l in
      if line = [] then converse e npcName conv ls w
      else
        let conv1 = conv @ [msg ''user'' line];
            low = ToLower line
        in if isFarewell low
           then (let (farewell, w1) = callOpenAI e conv1 w
                 in Some (ls, bumpAffinity npcName w1))
           else (let (reply, w1) = callOpenAI e conv1 w
                 in converse e npcName (conv1 @ [msg ''assistant'' reply]) ls w1))"

definition startConversation :: "env \<Rightarrow> string \<Rightarrow> world \<Rightarrow> world option" where
  "startConversation e npcName w =
     (let w1 = ensureNpc e npcName w in
      case npcData w1 npcName of
        None \<Rightarrow> None
      | Some info \<Rightarrow>
          let conv = [msg ''system'' (conversationPrompt npcName info)] in
          (case converse e npcName conv (stdin w1) w1 of
             None \<Rightarrow> None
           | Some (rest, w2) \<Rightarrow> Some (w2\<lparr>stdin := rest\<rparr>)))"

definition SYSTEM_PROMPT :: string where
  "SYSTEM_PROMPT =
     ''You are Realmweaver, the narrator and engine of an immersive, open'' @
     [CHR 0xE2, CHR 0x80, CHR 0x90] @
     ''ended text adventure.\<newline>'' @
     ''Whenever you describe people in a scene, ALWAYS give them:\<newline>'' @
     ''  1) A full name and title/role (e.g. '' @
     [CHR 0x22] @
     ''Selene the Librarian'' @
     [CHR 0x22] @
     '').\<newline>'' @
     ''  2) A brief backstory snippet'' @
     [CHR 0xE2, CHR 0x80, CHR 0x94] @
     ''one or two sentences about their past, interests, or '' @
     ''beliefs.\<newline>'' @
     ''\<newline>'' @
     ''The world is full of towns, villages, cities, forests (deep and '' @
     ''enchanted),\<newline>'' @
     ''mystic ruins, markets, taverns, temples, parks, homes, and '' @
     ''travelers.\<newline>'' @
     ''\<newline>'' @
     ''Keep track of the player'' @
     [CHR 0x27] @
     ''s location, the NPCs you'' @
     [CHR 0x27] @
     ''ve introduced (with consistent names),\<newline>'' @
     ''and ensure continuity as they walk, examine, or speak with people and '' @
     ''creatures.\<newline>'' @
     ''When the player types commands like '' @
     [CHR 0x22] @
     ''go to'' @
     [CHR 0xE2, CHR 0x80, CHR 0xA6, CHR 0x22] @
     '', '' @
     [CHR 0x22] @
     ''examine'' @
     [CHR 0xE2, CHR 0x80, CHR 0xA6, CHR 0x22] @
     '', or '' @
     [CHR 0x22] @
     ''talk to X'' @
     [CHR 0x22] @
     '',\<newline>'' @
     ''respond with a vivid, immersive description or dialogue.\<newline>''"

section \<open>World graph\<close>

definition neighbours :: "(string \<rightharpoonup> (string \<rightharpoonup> bool)) \<Rightarrow> string \<Rightarrow> (string \<rightharpoonup> bool)" where
  \<comment> \<open>the read \<^verbatim>\<open>MapGraph[node]\<close>: a missing key gives the nil map, which reads as empty\<close>
  "neighbours g a = (case g a of None \<Rightarrow> Map.empty | Some m \<Rightarrow> m)"

definition linkLocations :: "string \<Rightarrow> string \<Rightarrow> (string \<rightharpoonup> (string \<rightharpoonup> bool)) \<Rightarrow> (string \<rightharpoonup> (string \<rightharpoonup> bool))" where
  \<comment> \<open>lines 699 to 706 of \<^verbatim>\<open>main\<close>, in order; the two nil checks make the inner maps
      exist before they are written\<close>
  "linkLocations prev dest g =
     (let g1 = (if g prev = None then g(prev \<mapsto> Map.empty) else g);
          g2 = (if g1 dest = None then g1(dest \<mapsto> Map.empty) else g1);
          g3 = g2(prev \<mapsto> (neighbours g2 prev)(dest \<mapsto> True));
          g4 = g3(dest \<mapsto> (neighbours g3 dest)(prev \<mapsto> True))
      in g4)"

definition move :: "string \<Rightarrow> PlayerState \<Rightarrow> PlayerState" where
  \<comment> \<open>lines 697 to 711 of \<^verbatim>\<open>main\<close>: what a movement does to the player state\<close>
  "move dest ps =
     (let prev = CurrentLocation ps;
          g = (if prev \<noteq> [] then linkLocations prev dest (MapGraph ps) else MapGraph ps);
          visited = (if \<not> contains (VisitedLocations ps) dest
                     then VisitedLocations ps @ [dest] else VisitedLocations ps)
      in ps\<lparr>MapGraph := g, CurrentLocation := dest, VisitedLocations := visited\<rparr>)"

definition adjacent :: "(string \<rightharpoonup> (string \<rightharpoonup> bool)) \<Rightarrow> string \<Rightarrow> string \<Rightarrow> bool" where
  "adjacent g a b \<longleftrightarrow> neighbours g a b \<noteq> None"

definition symmetric :: "(string \<rightharpoonup> (string \<rightharpoonup> bool)) \<Rightarrow> bool" where
  "symmetric g \<longleftrightarrow> (\<forall>a b. adjacent g a b \<longrightarrow> adjacent g b a)"

section \<open>Stat checks\<close>

datatype rollReport =
    RollUsage                               \<comment> \<open>\<^verbatim>\<open>Usage: roll <stat> [DC]\<close>\<close>
  | UnknownStat string
  | Rolled int int "(int \<times> bool) option"   \<comment> \<open>modifier, total, and the DC with \<open>True\<close> for
                                                 Success when a DC was parsed\<close>

definition modifier :: "int \<Rightarrow> int" where
  \<comment> \<open>\<^verbatim>\<open>mod := (val - 10) / 2\<close>; Go's integer division truncates toward zero\<close>
  "modifier val = (val - 10) sdiv 2"

definition roll :: "env \<Rightarrow> string \<Rightarrow> world \<Rightarrow> rollReport \<times> world" where
  \<comment> \<open>lines 569 to 592; the report is what the branch prints\<close>
  "roll e cmd w =
     (let parts = Fields cmd in
      if length parts \<ge> 2 then
        (let stat = ToUpper (parts ! 1) in
         case Stats (playerState w) stat of
           Some val \<Rightarrow>
             (let md = modifier val;
                  (r, w1) = Intn e 20 w;
                  die = r + 1;
                  total = die + md;
                  verdict = (if length parts \<ge> 3
                             then (case Atoi (parts ! 2) of
                                     Some dc \<Rightarrow> Some (dc, total \<ge> dc)
                                   | None \<Rightarrow> None)
                             else None)
              in (Rolled md total verdict, w1))
         | None \<Rightarrow> (UnknownStat stat, w))
      else (RollUsage, w))"

section \<open>The game loop\<close>

datatype outcome =
    Continue world    \<comment> \<open>back at the head of the loop\<close>
  | Quit world        \<comment> \<open>\<^verbatim>\<open>main\<close> returns or the process exits\<close>
  | Hang              \<comment> \<open>a conversation that waits at the end of input for ever\<close>

definition setPrune :: "string \<Rightarrow> world \<Rightarrow> world" where
  "setPrune lc w =
     (let parts = Fields lc in
      if length parts = 3 \<and> (parts ! 2 = ''on'' \<or> parts ! 2 = ''off'')
      then w\<lparr>pruneEnabled := (parts ! 2 = ''on'')\<rparr>
      else w)"

definition hint :: "env \<Rightarrow> world \<Rightarrow> world" where
  "hint e w =
     (let hintPrompt = history w @ [msg ''user''
            (''I'' @ [CHR 0x27] @ ''m stuck at '' @ CurrentLocation (playerState w) @
             ''. Please give me a hint.'')];
          (raw, w1) = callOpenAI e hintPrompt w
      in w1)"

definition lookAround :: "env \<Rightarrow> string \<Rightarrow> world \<Rightarrow> world" where
  "lookAround e cmd w =
     (let w1 = w\<lparr>history := history w @ [msg ''user'' cmd]\<rparr>;
          (raw, w2) = callOpenAI e (history w1) w1;
          desc = normalizeText raw;
          w3 = w2\<lparr>history := history w2 @ [msg ''assistant'' desc]\<rparr>
      in printEnvironmentSummary e (history w3) w3)"

definition examine :: "env \<Rightarrow> string \<Rightarrow> string \<Rightarrow> world \<Rightarrow> world" where
  "examine e cmd target w =
     (let w1 = w\<lparr>history := history w @ [msg ''user'' cmd]\<rparr>;
          (raw, w2) = callOpenAI e (history w1) w1;
          desc = normalizeText raw;
          ps = playerState w2
      in w2\<lparr>itemsData := (itemsData w2)(target \<mapsto> desc),
            playerState := ps\<lparr>Journal := Journal ps @ [''Examined '' @ target @ ''.'']\<rparr>,
            history := history w2 @ [msg ''assistant'' desc]\<rparr>)"

definition travel :: "env \<Rightarrow> string \<Rightarrow> string \<Rightarrow> world \<Rightarrow> world" where
  \<comment> \<open>lines 696 to 719\<close>
  "travel e cmd dest w =
     (let w1 = w\<lparr>playerState := move dest (playerState w),
                 history := history w @ [msg ''user'' cmd]\<rparr>;
          (raw, w2) = callOpenAI e (history w1) w1;
          resp = normalizeText raw;
          w3 = w2\<lparr>history := history w2 @ [msg ''assistant'' resp],
                  sceneDescriptions := (sceneDescriptions w2)(dest \<mapsto> resp)\<rparr>
      in printEnvironmentSummary e (history w3) w3)"

definition forward :: "env \<Rightarrow> string \<Rightarrow> world \<Rightarrow> world" where
  \<comment> \<open>the default branch, lines 722 to 726\<close>
  "forward e cmd w =
     (let w1 = w\<lparr>history := history w @ [msg ''user'' cmd]\<rparr>;
          (raw, w2) = callOpenAI e (history w1) w1;
          resp = normalizeText raw
      in w2\<lparr>history := history w2 @ [msg ''assistant'' resp]\<rparr>)"

definition examinePrefix :: "string \<Rightarrow> string option" where
  "examinePrefix lc = List.find (\<lambda>pref. HasPrefix lc pref) [''examine '', ''look at '', ''inspect '']"

definition destination :: "string \<Rightarrow> string \<Rightarrow> string option" where
  \<comment> \<open>lines 680 to 695: \<open>Some dest\<close> when \<^verbatim>\<open>moved\<close> is set\<close>
  "destination cmd lc =
     (case List.find (\<lambda>pref. HasPrefix lc pref) [''go to '', ''move to '', ''travel to ''] of
        Some pref \<Rightarrow> Some (titleCase (drop (length pref) cmd))
      | None \<Rightarrow>
          if lc = ''north'' \<or> lc = ''south'' \<or> lc = ''east'' \<or> lc = ''west''
          then Some (titleCase lc) else None)"

definition loadCommand :: "env \<Rightarrow> world \<Rightarrow> world" where
  \<comment> \<open>\<^verbatim>\<open>if h, err := loadGame(); err == nil { history = h }\<close>\<close>
  "loadCommand e w =
     (case loadGame e w of
        (Some h, w1) \<Rightarrow> w1\<lparr>history := h\<rparr>
      | (None, w1) \<Rightarrow> w1)"

definition talkTo :: "env \<Rightarrow> string \<Rightarrow> world \<Rightarrow> outcome" where
  \<comment> \<open>lines 639 to 645\<close>
  "talkTo e cmd w =
     (let name = TrimSpace (drop 8 cmd) in
      if name = [] then Continue w
      else (case startConversation e name w of
              None \<Rightarrow> Hang
            | Some w1 \<Rightarrow> Continue w1))"

definition narrate :: "env \<Rightarrow> string \<Rightarrow> string \<Rightarrow> world \<Rightarrow> world" where
  \<comment> \<open>lines 658 to 726: examine, movement, or the default\<close>
  "narrate e cmd lc w =
     (case examinePrefix lc of
        Some pref \<Rightarrow>
          (let target = TrimSpace (drop (length pref) cmd) in
           if target = [] then w else examine e cmd target w)
      | None \<Rightarrow>
          (case destination cmd lc of
             Some dest \<Rightarrow> travel e cmd dest w
           | None \<Rightarrow> forward e cmd w))"

definition command :: "env \<Rightarrow> string \<Rightarrow> string \<Rightarrow> world \<Rightarrow> outcome" where
  \<comment> \<open>lines 528 to 726, after the history was pruned. \<^verbatim>\<open>help\<close>, \<^verbatim>\<open>inventory\<close>, \<^verbatim>\<open>stats\<close>,
      \<^verbatim>\<open>journal\<close> and \<^verbatim>\<open>map\<close> (with \<^verbatim>\<open>drawMap\<close>) only print.\<close>
  "command e cmd lc w =
     (if lc = ''quit'' \<or> lc = ''exit'' \<or> lc = ''stop'' then Quit w
      else if lc = ''help'' \<or> lc = ''?'' then Continue w
      else if lc = ''inventory'' then Continue w
      else if lc = ''stats'' then Continue w
      else if lc = ''journal'' then Continue w
      else if lc = ''save'' then Continue (saveGame e (history w) w)
      else if lc = ''load'' then Continue (loadCommand e w)
      else if lc = ''hint'' then Continue (hint e w)
      else if HasPrefix lc ''roll'' then Continue (snd (roll e cmd w))
      else if HasPrefix lc ''map'' then Continue w
      else if lc = ''talk to'' then Continue (snd (listNpcs e (history w) w))
      else if HasPrefix lc ''talk to '' then talkTo e cmd w
      else if lc = ''look'' \<or> lc = ''observe'' \<or> lc = ''where'' then Continue (lookAround e cmd w)
      else Continue (narrate e cmd lc w))"

definition pruneStep :: "env \<Rightarrow> world \<Rightarrow> world" where
  \<comment> \<open>\<^verbatim>\<open>if pruneEnabled { history = pruneHistory(history) }\<close>\<close>
  "pruneStep e w =
     (if pruneEnabled w
      then (let (h, w1) = pruneHistory e (history w) w in w1\<lparr>history := h\<rparr>)
      else w)"

definition dispatch :: "env \<Rightarrow> string \<Rightarrow> world \<Rightarrow> outcome" where
  \<comment> \<open>one pass of the game loop on the line that \<^verbatim>\<open>ReadString\<close> returned, lines 504 to 726\<close>
  "dispatch e line w =
     (let cmd = TrimSpace line in
      if cmd = [] then Continue w
      else
        let lc = ToLower cmd in
        if HasPrefix lc ''set prune'' then Continue (setPrune lc w)
        else command e cmd lc (pruneStep e w))"

definition readLine :: "world \<Rightarrow> string \<times> world" where
  \<comment> \<open>\<^verbatim>\<open>reader.ReadString('\n')\<close> with the error dropped: at the end of input the empty
      string\<close>
  "readLine w = (case stdin w of [] \<Rightarrow> ([], w) | l # ls \<Rightarrow> (l, w\<lparr>stdin := ls\<rparr>))"

definition gameLoopStep :: "env \<Rightarrow> world \<Rightarrow> outcome" where
  "gameLoopStep e w = (let (line, w1) = readLine w in dispatch e line w1)"

section \<open>Start of the process\<close>

definition processStart :: "SaveData option \<Rightarrow> string list \<Rightarrow> world" where
  \<comment> \<open>the package variables as they are initialised, with the save file and the input
      that the process finds\<close>
  "processStart d input =
     \<lparr>npcData = Map.empty,
      playerState = \<lparr>Stats = Map.empty, Inventory = [], Journal = [], VisitedLocations = [],
                     MapGraph = Map.empty, CurrentLocation = []\<rparr>,
      history = [],
      pruneEnabled = True,
      sceneDescriptions = Map.empty,
      itemsData = Map.empty,
      disk = d,
      stdin = input,
      sent = 0, oracleCalls = 0, drawn = 0, fsOps = 0\<rparr>"

definition newGame :: "env \<Rightarrow> world \<Rightarrow> world" where
  \<comment> \<open>lines 475 to 492\<close>
  "newGame e w =
     (let w1 = initPlayerState e w;
          (line, w2) = readLine w1;
          start0 = TrimSpace line;
          start = (if start0 = [] then ''Year 1372, in the misty Isle of Everdawn'' else start0);
          w3 = w2\<lparr>history := [msg ''system'' SYSTEM_PROMPT,
                                msg ''user'' (''Begin the adventure: '' @ start)]\<rparr>;
          (raw, w4) = callOpenAI e (history w3) w3;
          intro = normalizeText raw;
          ps = playerState w4
      in w4\<lparr>history := history w4 @ [msg ''assistant'' intro],
            sceneDescriptions := (sceneDescriptions w4)(start \<mapsto> intro),
            playerState := ps\<lparr>CurrentLocation := start,
                               VisitedLocations := VisitedLocations ps @ [start]\<rparr>\<rparr>)"

definition menuLoad :: "env \<Rightarrow> world \<Rightarrow> Message list \<times> world" where
  \<comment> \<open>the branch \<^verbatim>\<open>choice == "2"\<close>, lines 459 to 469: the variable \<^verbatim>\<open>loaded\<close> and the state\<close>
  "menuLoad e w =
     (case loadGame e w of
        (None, w1) \<Rightarrow> ([], initPlayerState e w1)
      | (Some h, w1) \<Rightarrow> (h, w1\<lparr>history := h\<rparr>))"

definition startup :: "env \<Rightarrow> world \<Rightarrow> outcome" where
  \<comment> \<open>\<^verbatim>\<open>main\<close> up to the game loop, lines 444 to 493\<close>
  "startup e w =
     (if apiKey e = [] then Quit w
      else
        let (line, w1) = readLine w;
            choice = TrimSpace line;
            (loaded, w2) = (if choice = ''2'' then menuLoad e w1 else ([], w1))
        in if choice = ''3'' then Quit w2
           else if loaded = [] then Continue (newGame e w2)
           else Continue w2)"

text \<open>
  The states at the head of the game loop: of a process that found no save file, of a
  process that found the file an earlier process left, and after each pass of the
  loop. The environment may differ from pass to pass.
\<close>

inductive reachable :: "world \<Rightarrow> bool" where
  first: "startup e (processStart None input) = Continue w \<Longrightarrow> reachable w"
| again: "reachable w0 \<Longrightarrow> startup e (processStart (disk w0) input) = Continue w \<Longrightarrow> reachable w"
| step: "reachable w0 \<Longrightarrow> gameLoopStep e w0 = Continue w \<Longrightarrow> reachable w"

section \<open>A concrete environment\<close>

definition cannedEnv :: "string \<Rightarrow> env" where
  \<comment> \<open>every HTTP attempt answers with the same text, the generator counts up, every
      file operation succeeds\<close>
  "cannedEnv reply =
     \<lparr>net = (\<lambda>k msgs. Reply reply), rnd = (\<lambda>k. k), fsOk = (\<lambda>k. True), apiKey = ''key''\<rparr>"

section \<open>The list parser as the specification words it\<close>

definition specTrimToken :: "string \<Rightarrow> string" where
  \<comment> \<open>"each token trimmed of whitespace and trailing punctuation \<open>{.,!,?,:,;}\<close>"\<close>
  "specTrimToken p = rev (dropWhile (\<lambda>c. c \<in> set ''.,!?:;'') (rev (TrimSpace p)))"

definition specParseList :: "string \<Rightarrow> string list" where
  \<comment> \<open>"split on commas; ... empty tokens and case-insensitive none discarded; remaining
      tokens kept in oracle output order (not deduplicated)"\<close>
  "specParseList raw =
     filter (\<lambda>n. n \<noteq> [] \<and> ToLower n \<noteq> ''none'') (map specTrimToken (Split raw CHR '',''))"

section \<open>Invariants of the player state\<close>

definition visitedCurrent :: "PlayerState \<Rightarrow> bool" where
  "visitedCurrent ps \<longleftrightarrow>
     (CurrentLocation ps \<noteq> [] \<longrightarrow> CurrentLocation ps \<in> set (VisitedLocations ps))"

definition statsInRange :: "PlayerState \<Rightarrow> bool" where
  "statsInRange ps \<longleftrightarrow> (\<forall>s v. Stats ps s = Some v \<longrightarrow> 8 \<le> v \<and> v \<le> 18)"

definition soundPlayer :: "PlayerState \<Rightarrow> bool" where
  "soundPlayer ps \<longleftrightarrow> symmetric (MapGraph ps) \<and> visitedCurrent ps \<and> statsInRange ps"

definition sound :: "world \<Rightarrow> bool" where
  \<comment> \<open>the player state in memory and the one in the save file\<close>
  "sound w \<longleftrightarrow>
     soundPlayer (playerState w) \<and>
     (case disk w of None \<Rightarrow> True | Some d \<Rightarrow> soundPlayer (SavedPlayerState d))"

fun passes :: "env \<Rightarrow> nat \<Rightarrow> world \<Rightarrow> outcome" where
  \<comment> \<open>so many passes of the game loop\<close>
  "passes e 0 w = Continue w"
| "passes e (Suc k) w =
     (case gameLoopStep e w of Continue w1 \<Rightarrow> passes e k w1 | Quit w1 \<Rightarrow> Quit w1 | Hang \<Rightarrow> Hang)"

section \<open>Sample sessions\<close>

definition started :: "env \<Rightarrow> string list \<Rightarrow> world" where
  \<comment> \<open>the head of the game loop of a first process that was given the input and chose
      a new game\<close>
  "started e input = newGame e (snd (readLine (processStart None input)))"

definition session :: "env \<Rightarrow> string list \<Rightarrow> nat \<Rightarrow> outcome" where
  \<comment> \<open>a first process on the given input: the start, then so many passes of the loop\<close>
  "session e input k =
     (case startup e (processStart None input) of
        Continue w \<Rightarrow> passes e k w
      | Quit w \<Rightarrow> Quit w
      | Hang \<Rightarrow> Hang)"

definition affinityOf :: "world \<Rightarrow> string \<Rightarrow> int option" where
  "affinityOf w n = map_option Affinity (npcData w n)"

definition affinityAfter :: "outcome \<Rightarrow> string \<Rightarrow> int option" where
  "affinityAfter r n = (case r of Continue w \<Rightarrow> affinityOf w n | Quit w \<Rightarrow> None | Hang \<Rightarrow> None)"

definition inputLeft :: "outcome \<Rightarrow> string list option" where
  "inputLeft r = (case r of Continue w \<Rightarrow> Some (stdin w) | Quit w \<Rightarrow> None | Hang \<Rightarrow> None)"

definition talkInput :: "string list" where
  "talkInput = [''1'', ''Harbor'', ''talk to Selene'', ''goodbye'', ''save'',
                ''talk to Selene'', ''goodbye'', ''load'']"

definition tourInput :: "string list" where
  "tourInput = [''1'', ''Harbor'', ''go to market'']"

definition tourWorld :: world where
  \<comment> \<open>after the pass that reads \<^verbatim>\<open>go to market\<close>\<close>
  "tourWorld =
     travel (cannedEnv ''Hi.'') ''go to market'' ''Market''
       (pruneStep (cannedEnv ''Hi.'') (snd (readLine (started (cannedEnv ''Hi.'') tourInput))))"

section \<open>The oracle call: results\<close>

lemma callAttempts_result:
  "fst (callAttempts e msgs n w) = placeholderResponse \<or>
   (\<exists>k c. sent w \<le> k \<and> k < sent w + n \<and> net e k msgs = Reply c \<and>
      fst (callAttempts e msgs n w) = TrimSpace c)"
proof (induction n arbitrary: w)
  case 0
  then show ?case by simp
next
  case (Suc n)
  show ?case
  proof (cases "net e (sent w) msgs")
    case (Reply c)
    then have "fst (callAttempts e msgs (Suc n) w) = TrimSpace c" by simp
    with Reply show ?thesis by (intro disjI2 exI[of _ "sent w"] exI[of _ c]) simp
  next
    case TransportError
    then have eq: "callAttempts e msgs (Suc n) w = callAttempts e msgs n (w\<lparr>sent := sent w + 1\<rparr>)"
      by simp
    from Suc.IH[of "w\<lparr>sent := sent w + 1\<rparr>"] show ?thesis
    proof
      assume "fst (callAttempts e msgs n (w\<lparr>sent := sent w + 1\<rparr>)) = placeholderResponse"
      with eq show ?thesis by simp
    next
      assume "\<exists>k c. sent (w\<lparr>sent := sent w + 1\<rparr>) \<le> k \<and> k < sent (w\<lparr>sent := sent w + 1\<rparr>) + n \<and>
         net e k msgs = Reply c \<and> fst (callAttempts e msgs n (w\<lparr>sent := sent w + 1\<rparr>)) = TrimSpace c"
      then obtain k c where "sent w + 1 \<le> k" "k < sent w + 1 + n" "net e k msgs = Reply c"
        "fst (callAttempts e msgs n (w\<lparr>sent := sent w + 1\<rparr>)) = TrimSpace c" by auto
      with eq have "sent w \<le> k \<and> k < sent w + Suc n \<and> net e k msgs = Reply c \<and>
         fst (callAttempts e msgs (Suc n) w) = TrimSpace c" by simp
      then show ?thesis by blast
    qed
  next
    case HttpError
    then have eq: "callAttempts e msgs (Suc n) w = callAttempts e msgs n (w\<lparr>sent := sent w + 1\<rparr>)"
      by simp
    from Suc.IH[of "w\<lparr>sent := sent w + 1\<rparr>"] show ?thesis
    proof
      assume "fst (callAttempts e msgs n (w\<lparr>sent := sent w + 1\<rparr>)) = placeholderResponse"
      with eq show ?thesis by simp
    next
      assume "\<exists>k c. sent (w\<lparr>sent := sent w + 1\<rparr>) \<le> k \<and> k < sent (w\<lparr>sent := sent w + 1\<rparr>) + n \<and>
         net e k msgs = Reply c \<and> fst (callAttempts e msgs n (w\<lparr>sent := sent w + 1\<rparr>)) = TrimSpace c"
      then obtain k c where "sent w + 1 \<le> k" "k < sent w + 1 + n" "net e k msgs = Reply c"
        "fst (callAttempts e msgs n (w\<lparr>sent := sent w + 1\<rparr>)) = TrimSpace c" by auto
      with eq have "sent w \<le> k \<and> k < sent w + Suc n \<and> net e k msgs = Reply c \<and>
         fst (callAttempts e msgs (Suc n) w) = TrimSpace c" by simp
      then show ?thesis by blast
    qed
  qed simp_all
qed

lemma callOpenAI_result:
  "fst (callOpenAI e msgs w) = placeholderResponse \<or>
   (\<exists>k c. sent w \<le> k \<and> k < sent w + 3 \<and> net e k msgs = Reply c \<and>
      fst (callOpenAI e msgs w) = TrimSpace c)"
  using callAttempts_result[of e msgs 3 "w\<lparr>oracleCalls := oracleCalls w + 1\<rparr>"]
  by (simp add: callOpenAI_def)

lemma callOpenAI_cannedEnv:
  "callOpenAI (cannedEnv reply) msgs w =
     (TrimSpace reply, w\<lparr>oracleCalls := oracleCalls w + 1, sent := sent w + 1\<rparr>)"
  by (simp add: callOpenAI_def cannedEnv_def numeral_3_eq_3)

lemma TrimSpace_ok: "TrimSpace ''A quiet road.'' = ''A quiet road.''"
  by (simp add: TrimSpace_def TrimFunc_def isSpace_def)

section \<open>Compaction of the history\<close>

text \<open>
  Claim C1. \<^verbatim>\<open>pruneHistory\<close> returns a history of at most 30 messages unchanged, without
  an oracle call. On a longer history the result has exactly 11 messages: first a
  system message whose content is \<^verbatim>\<open>SUMMARY: \<close> followed by what \<^verbatim>\<open>callOpenAI\<close> returned for
  the summary prompt and the head of the history (the trimmed reply of the oracle, or
  the placeholder), then the last 10 messages of the input, in order.
\<close>

theorem pruneHistory_compaction:
  "(length H \<le> 30 \<longrightarrow> pruneHistory e H w = (H, w)) \<and>
   (30 < length H \<longrightarrow>
      (let prompt = msg ''system'' summaryPrompt # take (length H - 10) H;
           summary = fst (callOpenAI e prompt w);
           H' = fst (pruneHistory e H w)
       in length H' = 11 \<and>
          hd H' = msg ''system'' (''SUMMARY: '' @ summary) \<and>
          (summary = placeholderResponse \<or>
           (\<exists>k c. net e k prompt = Reply c \<and> summary = TrimSpace c)) \<and>
          drop (length H' - 10) H' = drop (length H - 10) H \<and>
          snd (pruneHistory e H w) = snd (callOpenAI e prompt w)))"
proof (intro conjI impI)
  assume "length H \<le> 30"
  then show "pruneHistory e H w = (H, w)" by (simp add: pruneHistory_def)
next
  assume long: "30 < length H"
  define prompt where "prompt = msg ''system'' summaryPrompt # take (length H - 10) H"
  define summary where "summary = fst (callOpenAI e prompt w)"
  have res: "pruneHistory e H w =
      (msg ''system'' (''SUMMARY: '' @ summary) # drop (length H - 10) H, snd (callOpenAI e prompt w))"
    using long by (simp add: pruneHistory_def prompt_def summary_def split: prod.splits)
  have len: "length (drop (length H - 10) H) = 10" using long by simp
  have orc: "summary = placeholderResponse \<or> (\<exists>k c. net e k prompt = Reply c \<and> summary = TrimSpace c)"
    using callOpenAI_result[of e prompt w] unfolding summary_def by blast
  show "let prompt = msg ''system'' summaryPrompt # take (length H - 10) H;
           summary = fst (callOpenAI e prompt w);
           H' = fst (pruneHistory e H w)
       in length H' = 11 \<and>
          hd H' = msg ''system'' (''SUMMARY: '' @ summary) \<and>
          (summary = placeholderResponse \<or>
           (\<exists>k c. net e k prompt = Reply c \<and> summary = TrimSpace c)) \<and>
          drop (length H' - 10) H' = drop (length H - 10) H \<and>
          snd (pruneHistory e H w) = snd (callOpenAI e prompt w)"
    unfolding Let_def prompt_def[symmetric] summary_def[symmetric]
    using res len orc by simp
qed

theorem pruneHistory_compaction_witness:
  "pruneHistory (cannedEnv ''A quiet road.'') (replicate 30 (msg ''user'' ''look'')) (processStart None [])
     = (replicate 30 (msg ''user'' ''look''), processStart None []) \<and>
   (let H = replicate 30 (msg ''user'' ''look'') @ [msg ''assistant'' ''You see a road.''];
        H' = fst (pruneHistory (cannedEnv ''A quiet road.'') H (processStart None []))
    in (30::nat) < length H \<and> length H' = 11 \<and>
       hd H' = msg ''system'' ''SUMMARY: A quiet road.'' \<and>
       drop (length H' - 10) H' = replicate 9 (msg ''user'' ''look'') @ [msg ''assistant'' ''You see a road.''])"
proof -
  let ?e = "cannedEnv ''A quiet road.''"
  let ?w = "processStart None []"
  let ?short = "replicate 30 (msg ''user'' ''look'')"
  let ?long = "?short @ [msg ''assistant'' ''You see a road.'']"
  have short: "length ?short \<le> 30" and long: "30 < length ?long" by simp_all
  from pruneHistory_compaction [of ?short ?e ?w] short
  have a: "pruneHistory ?e ?short ?w = (?short, ?w)" by blast
  note th = pruneHistory_compaction [of ?long ?e ?w, unfolded Let_def, THEN conjunct2, rule_format, OF long]
  have b: "length (fst (pruneHistory ?e ?long ?w)) = 11"
    using th by blast
  have "hd (fst (pruneHistory ?e ?long ?w)) = msg ''system'' (''SUMMARY: '' @
          fst (callOpenAI ?e (msg ''system'' summaryPrompt # take (length ?long - 10) ?long) ?w))"
    using th by blast
  then have c: "hd (fst (pruneHistory ?e ?long ?w)) = msg ''system'' ''SUMMARY: A quiet road.''"
    by (simp add: callOpenAI_cannedEnv TrimSpace_ok)
  have d: "drop (length (fst (pruneHistory ?e ?long ?w)) - 10) (fst (pruneHistory ?e ?long ?w))
            = drop (length ?long - 10) ?long"
    using th by blast
  have "drop (length ?long - 10) ?long
        = replicate 9 (msg ''user'' ''look'') @ [msg ''assistant'' ''You see a road.'']"
    by simp
  with a b c d long show ?thesis unfolding Let_def by (simp only: simp_thms)
qed

section \<open>Parsing the environment lists\<close>

lemma collectNames_filter_map:
  "collectNames out parts =
     out @ filter (\<lambda>n. n \<noteq> [] \<and> ToLower n \<noteq> ''none'')
             (map (\<lambda>p. Trim (TrimSpace p) ''.!?:;'') parts)"
  by (induction parts arbitrary: out) (simp_all add: Let_def)

lemma splitAcc_nonempty: "splitAcc sep cur s \<noteq> []"
  by (induction s arbitrary: cur) simp_all

lemma splitAcc_Join:
  "Join (splitAcc sep cur s) [sep] = cur @ s"
proof (induction s arbitrary: cur)
  case Nil
  then show ?case by simp
next
  case (Cons c cs)
  show ?case
  proof (cases "c = sep")
    case True
    obtain x xs where sp: "splitAcc sep [] cs = x # xs"
      using splitAcc_nonempty[of sep "[]" cs] by (cases "splitAcc sep [] cs") simp_all
    have "Join (x # xs) [sep] = cs" using Cons.IH[of "[]"] sp by simp
    with True sp show ?thesis by simp
  next
    case False
    then show ?thesis using Cons.IH[of "cur @ [c]"] by simp
  qed
qed

lemma splitAcc_no_sep:
  "sep \<notin> set cur \<Longrightarrow> sep \<notin> set (concat (splitAcc sep cur s))"
proof (induction s arbitrary: cur)
  case Nil
  then show ?case by simp
next
  case (Cons c cs)
  show ?case
  proof (cases "c = sep")
    case True
    with Cons.prems Cons.IH[of "[]"] show ?thesis by simp
  next
    case False
    with Cons.prems Cons.IH[of "cur @ [c]"] show ?thesis by simp
  qed
qed

lemma parseList_eval:
  "parseList ''Sword, , Shield!, none'' = [''Sword'', ''Shield'']"
  "parseList ''Rope, Rope'' = [''Rope'', ''Rope'']"
  by (simp_all add: Let_def parseList_def Split_def Trim_def TrimSpace_def TrimFunc_def
      isSpace_def ToLower_def toLowerChar_def isUpperAscii_def)

text \<open>
  Claim C8, as stated, fails: the claim trims trailing punctuation only, whereas
  \<^verbatim>\<open>strings.Trim\<close> also removes punctuation at the front of a token. On the reply
  \<^verbatim>\<open>?Sword\<close> the code returns \<^verbatim>\<open>Sword\<close> and the parser of the claim returns \<^verbatim>\<open>?Sword\<close>.
\<close>

theorem parseList_trailing_only_counterexample:
  "parseList ''?Sword'' = [''Sword''] \<and> specParseList ''?Sword'' = [''?Sword'']"
  by (simp add: Let_def parseList_def specParseList_def specTrimToken_def Split_def Trim_def
      TrimSpace_def TrimFunc_def isSpace_def ToLower_def toLowerChar_def isUpperAscii_def)

text \<open>
  Claim C8, amended. The reply is split at its commas (the pieces, joined by commas,
  give the reply back, and no piece holds a comma); each piece is trimmed of white
  space and then of the characters \<^verbatim>\<open>.!?:;\<close> at both ends; pieces that are then empty
  or equal to \<^verbatim>\<open>none\<close> without regard to case are dropped; the others are kept in
  their order, duplicates included. The reply \<^verbatim>\<open>Sword, , Shield!, none\<close> gives
  \<^verbatim>\<open>Sword\<close> and \<^verbatim>\<open>Shield\<close>.
\<close>

theorem parseList_tokens:
  "parseList raw =
     filter (\<lambda>n. n \<noteq> [] \<and> ToLower n \<noteq> ''none'')
       (map (\<lambda>p. Trim (TrimSpace p) ''.!?:;'') (Split raw CHR '','')) \<and>
   Join (Split raw CHR '','') '','' = raw \<and>
   CHR '','' \<notin> set (concat (Split raw CHR '','')) \<and>
   parseList ''Sword, , Shield!, none'' = [''Sword'', ''Shield''] \<and>
   parseList ''Rope, Rope'' = [''Rope'', ''Rope'']"
proof -
  have "parseList raw =
     filter (\<lambda>n. n \<noteq> [] \<and> ToLower n \<noteq> ''none'')
       (map (\<lambda>p. Trim (TrimSpace p) ''.!?:;'') (Split raw CHR '',''))"
    by (simp add: parseList_def collectNames_filter_map)
  moreover have "Join (Split raw CHR '','') '','' = raw"
    using splitAcc_Join[of "CHR '',''" "[]" raw] by (simp add: Split_def)
  moreover have "CHR '','' \<notin> set (concat (Split raw CHR '',''))"
    using splitAcc_no_sep[of "CHR '',''" "[]" raw] by (simp add: Split_def)
  ultimately show ?thesis using parseList_eval by blast
qed

section \<open>Initial attributes\<close>

lemma Intn_range: "0 < n \<Longrightarrow> 0 \<le> fst (Intn e n w) \<and> fst (Intn e n w) < int n"
  by (simp add: Intn_def)

lemma rollStats_dom: "dom (fst (rollStats e ss stats w)) = dom stats \<union> set ss"
  by (induction ss arbitrary: stats w) (auto simp: Intn_def Let_def split: prod.splits)

lemma rollStats_range:
  "fst (rollStats e ss stats w) s = Some v \<Longrightarrow> stats s = Some v \<or> (8 \<le> v \<and> v \<le> 18)"
proof (induction ss arbitrary: stats w)
  case Nil
  then show ?case by simp
next
  case (Cons a ss)
  let ?r = "fst (Intn e 11 w)"
  have r: "0 \<le> ?r \<and> ?r < 11" using Intn_range[of 11 e w] by simp
  from Cons.prems have "fst (rollStats e ss (stats(a \<mapsto> ?r + 8)) (snd (Intn e 11 w))) s = Some v"
    by (simp add: Let_def split: prod.splits)
  from Cons.IH[OF this] r show ?case by (auto split: if_splits)
qed

text \<open>
  Claim C9. After \<^verbatim>\<open>initPlayerState\<close> the stats map holds exactly the six attributes
  STR, DEX, CON, INT, WIS and CHA, and every value in it lies between 8 and 18, whatever
  the random generator delivers.
\<close>

theorem initPlayerState_stats_range:
  "dom (Stats (playerState (initPlayerState e w))) = set statNames \<and>
   (Stats (playerState (initPlayerState e w)) s = Some v \<longrightarrow> 8 \<le> v \<and> v \<le> 18)"
proof -
  have eq: "Stats (playerState (initPlayerState e w)) = fst (rollStats e statNames Map.empty w)"
    by (simp add: initPlayerState_def split: prod.splits)
  show ?thesis
    unfolding eq using rollStats_dom[of e statNames Map.empty w]
      rollStats_range[of e statNames Map.empty w s v] by auto
qed

theorem initPlayerState_stats_range_witness:
  "Stats (playerState (initPlayerState (cannedEnv ''ok'') (processStart None []))) ''CHA'' = Some 13 \<and>
   (8::int) \<le> 13 \<and> (13::int) \<le> 18"
  using initPlayerState_stats_range [of "cannedEnv ''ok''" "processStart None []" "''CHA''" 13]
  by (simp add: initPlayerState_def statNames_def Intn_def cannedEnv_def processStart_def Let_def)

section \<open>Stat checks: the modifier\<close>

lemma modifier_cases:
  "modifier v = (if 10 \<le> v then (v - 10) div 2 else - ((10 - v) div 2))"
  by (auto simp: modifier_def signed_divide_int_def sgn_if)

lemma modifier_floor: "10 \<le> v \<or> even v \<Longrightarrow> modifier v = (v - 10) div 2"
  unfolding modifier_cases by (cases "10 \<le> v") (simp, presburger)

lemma modifier_odd_below: "v < 10 \<Longrightarrow> odd v \<Longrightarrow> modifier v = (v - 10) div 2 + 1"
  unfolding modifier_cases by presburger

lemma roll_report:
  assumes "Fields cmd = r # s # rest"
    and "Stats (playerState w) (ToUpper s) = Some v"
  shows "\<exists>d. 1 \<le> d \<and> d \<le> 20 \<and>
           fst (roll e cmd w) =
             Rolled (modifier v) (d + modifier v)
               (case rest of
                  [] \<Rightarrow> None
                | a # _ \<Rightarrow> (case Atoi a of None \<Rightarrow> None
                                         | Some dc \<Rightarrow> Some (dc, dc \<le> d + modifier v)))"
proof -
  let ?d = "fst (Intn e 20 w) + 1"
  have "1 \<le> ?d \<and> ?d \<le> 20" by (simp add: Intn_def)
  moreover have "fst (roll e cmd w) =
             Rolled (modifier v) (?d + modifier v)
               (case rest of
                  [] \<Rightarrow> None
                | a # _ \<Rightarrow> (case Atoi a of None \<Rightarrow> None
                                         | Some dc \<Rightarrow> Some (dc, dc \<le> ?d + modifier v)))"
    using assms by (cases rest) (auto simp: roll_def Let_def split: prod.splits option.splits)
  ultimately show ?thesis by blast
qed

lemma Fields_roll: "Fields ''roll dex 7'' = [''roll'', ''dex'', ''7'']"
  by (simp add: Fields_def isSpace_def)

lemma ToUpper_dex: "ToUpper ''dex'' = ''DEX''"
  by (simp add: ToUpper_def toUpperChar_def isLowerAscii_def)

lemma Atoi_7: "Atoi ''7'' = Some 7"
  by (simp add: Atoi_def isDigit_def decimal_def digitVal_def)

lemma modifier_14: "modifier 14 = 2"
  by (simp add: modifier_cases)

text \<open>
  Claim C5. The claim asks for the modifier \<open>\<lfloor>(v - 10) / 2\<rfloor>\<close>, the ability modifier of
  the d20 rules. The code divides with Go's \<^verbatim>\<open>/\<close>, which truncates toward zero, so the
  two agree for \<open>v \<ge> 10\<close> and for even \<open>v\<close> (\<open>modifier_floor\<close>) and differ by one for odd
  \<open>v\<close> below 10 (\<open>modifier_odd_below\<close>). A new game whose generator delivers 1 at the
  second draw has DEX = 9; there \<^verbatim>\<open>roll dex 7\<close> with the die showing 7 reports modifier
  0, total 7 and Success, where the floor is \<open>-1\<close>, the total 6 and the check fails.
  The rest of the claim holds (\<open>roll_report\<close>): the total is die plus modifier, the die
  lies in 1..20, and a parsed DC gives Success exactly when the total reaches it.
\<close>

theorem roll_modifier_truncates:
  "Stats (playerState (initPlayerState (cannedEnv ''ok'') (processStart None []))) ''DEX'' = Some 9 \<and>
   fst (roll (cannedEnv ''ok'') ''roll dex 7''
          (initPlayerState (cannedEnv ''ok'') (processStart None [])))
     = Rolled 0 7 (Some (7, True)) \<and>
   (9 - 10) div 2 = (- 1 :: int)"
  by (simp add: roll_def Fields_roll ToUpper_dex Atoi_7 modifier_cases
      initPlayerState_def statNames_def Intn_def cannedEnv_def processStart_def Let_def)

section \<open>Parsing a persona\<close>

lemma scanPersona_no_bio:
  "\<forall>l \<in> set lines. \<not> HasPrefix (ToUpper l) ''BIO:'' \<Longrightarrow> fst (scanPersona lines (b, s)) = b"
  by (induction lines arbitrary: b s) (simp_all add: Let_def)

lemma scanPersona_no_backstory:
  "\<forall>l \<in> set lines. \<not> HasPrefix (ToUpper l) ''BACKSTORY:'' \<Longrightarrow> snd (scanPersona lines (b, s)) = s"
  by (induction lines arbitrary: b s) (simp_all add: Let_def)

lemma scanPersona_append:
  "scanPersona (ls @ [l]) acc =
     (let (bio, backstory) = scanPersona ls acc;
          up = ToUpper l
      in (if HasPrefix up ''BIO:'' then TrimSpace (drop 4 l) else bio,
          if HasPrefix up ''BACKSTORY:'' then TrimSpace (drop 9 l) else backstory))"
proof (induction ls arbitrary: acc)
  case Nil
  then show ?case by (cases acc) (simp add: Let_def)
next
  case (Cons a ls)
  then show ?case by (cases acc) (simp add: Let_def)
qed

lemma toUpperChar_colon: "toUpperChar c = CHR '':'' \<Longrightarrow> c = CHR '':''"
  by (cases c) (auto simp: toUpperChar_def isLowerAscii_def split: if_splits)

lemma TrimSpace_colon:
  "TrimSpace (CHR '':'' # xs) = CHR '':'' # rev (dropWhile isSpace (rev xs))"
proof -
  have c: "\<not> isSpace (CHR '':'')" by (simp add: isSpace_def)
  have "dropWhile isSpace (rev xs @ [CHR '':'']) = dropWhile isSpace (rev xs) @ [CHR '':'']"
    using c by (induction "rev xs" arbitrary: xs) (simp_all add: dropWhile_append)
  then show ?thesis using c by (simp add: TrimSpace_def TrimFunc_def)
qed

lemma backstory_label_keeps_colon:
  assumes "HasPrefix (ToUpper l) ''BACKSTORY:''"
  shows "TrimSpace (drop 9 l) = CHR '':'' # rev (dropWhile isSpace (rev (drop 10 l)))"
proof -
  let ?pre = "''BACKSTORY:''"
  from assms have t: "take (length ?pre) (map toUpperChar l) = ?pre"
    by (simp only: HasPrefix_def ToUpper_def)
  have "length (take (length ?pre) (map toUpperChar l)) = length ?pre"
    by (simp only: t)
  then have len: "10 \<le> length l" by simp
  have "toUpperChar (l ! 9) = take (length ?pre) (map toUpperChar l) ! 9"
    using len by simp
  also have "\<dots> = ?pre ! 9" by (simp only: t)
  also have "\<dots> = CHR '':''" by simp
  finally have "l ! 9 = CHR '':''" by (rule toUpperChar_colon)
  moreover have "drop 9 l = l ! 9 # drop 10 l"
    using len Cons_nth_drop_Suc[of 9 l] by simp
  ultimately show ?thesis by (simp add: TrimSpace_colon)
qed

lemma personaFields_missing_bio:
  "\<forall>l \<in> set (Split summary CHR 0x0A). \<not> HasPrefix (ToUpper l) ''BIO:'' \<Longrightarrow>
   fst (personaFields npcName summary) = npcName @ '', a person of note.''"
  using scanPersona_no_bio[of "Split summary CHR 0x0A" "[]" "[]"]
  by (auto simp: personaFields_def Let_def split: prod.splits)

lemma personaFields_missing_backstory:
  "\<forall>l \<in> set (Split summary CHR 0x0A). \<not> HasPrefix (ToUpper l) ''BACKSTORY:'' \<Longrightarrow>
   snd (personaFields npcName summary) = ''They prefer to keep much of their past private.''"
  using scanPersona_no_backstory[of "Split summary CHR 0x0A" "[]" "[]"]
  by (auto simp: personaFields_def Let_def split: prod.splits)

text \<open>
  Claim C6. The claim takes the value of a field to be exactly the rest of the line
  after its label. For \<^verbatim>\<open>BIO:\<close> the code does that (\<^verbatim>\<open>line[4:]\<close>, four characters). For
  \<^verbatim>\<open>BACKSTORY:\<close>, ten characters, the code takes \<^verbatim>\<open>line[9:]\<close>: the colon of the label stays
  in the value (\<open>backstory_label_keeps_colon\<close>, for every labelled line). On the reply
  below the stored backstory is \<^verbatim>\<open>: She guards old books.\<close> where the claim gives
  \<^verbatim>\<open>She guards old books.\<close>. The fallbacks for missing labels are as the claim says
  (\<open>personaFields_missing_bio\<close>, \<open>personaFields_missing_backstory\<close>).
\<close>

theorem personaFields_backstory_keeps_colon:
  "personaFields ''Selene''
      (''BIO: Selene the Librarian.'' @ [CHR 0x0A] @ ''BACKSTORY: She guards old books.'')
    = (''Selene the Librarian.'', '': She guards old books.'')"
  by (simp add: personaFields_def Split_def HasPrefix_def ToUpper_def toUpperChar_def
      isLowerAscii_def TrimSpace_def TrimFunc_def isSpace_def Let_def)

section \<open>What an oracle call leaves alone\<close>

lemma callAttempts_frame:
  "\<exists>k\<le>n. snd (callAttempts e msgs n w) = w\<lparr>sent := sent w + k\<rparr>"
proof (induction n arbitrary: w)
  case 0
  then show ?case by simp
next
  case (Suc n)
  let ?w1 = "w\<lparr>sent := sent w + 1\<rparr>"
  from Suc.IH[of ?w1] obtain k where k: "k \<le> n"
    "snd (callAttempts e msgs n ?w1) = ?w1\<lparr>sent := sent ?w1 + k\<rparr>" by blast
  then have retry: "snd (callAttempts e msgs n ?w1) = w\<lparr>sent := sent w + Suc k\<rparr>" by simp
  have one: "?w1 = w\<lparr>sent := sent w + Suc 0\<rparr>" by simp
  have zero: "w = w\<lparr>sent := sent w + 0\<rparr>" by simp
  show ?case
  proof (cases "net e (sent w) msgs")
    case RequestError
    then have "snd (callAttempts e msgs (Suc n) w) = w\<lparr>sent := sent w + 0\<rparr>" by simp
    then show ?thesis by blast
  next
    case TransportError
    then have "snd (callAttempts e msgs (Suc n) w) = w\<lparr>sent := sent w + Suc k\<rparr>"
      using retry by simp
    with k(1) show ?thesis by (intro exI[of _ "Suc k"]) simp
  next
    case HttpError
    then have "snd (callAttempts e msgs (Suc n) w) = w\<lparr>sent := sent w + Suc k\<rparr>"
      using retry by simp
    with k(1) show ?thesis by (intro exI[of _ "Suc k"]) simp
  next
    case ReadError
    then have "snd (callAttempts e msgs (Suc n) w) = w\<lparr>sent := sent w + Suc 0\<rparr>" by simp
    then show ?thesis by (intro exI[of _ "Suc 0"]) simp
  next
    case UnmarshalError
    then have "snd (callAttempts e msgs (Suc n) w) = w\<lparr>sent := sent w + Suc 0\<rparr>" by simp
    then show ?thesis by (intro exI[of _ "Suc 0"]) simp
  next
    case NoChoices
    then have "snd (callAttempts e msgs (Suc n) w) = w\<lparr>sent := sent w + Suc 0\<rparr>" by simp
    then show ?thesis by (intro exI[of _ "Suc 0"]) simp
  next
    case (Reply c)
    then have "snd (callAttempts e msgs (Suc n) w) = w\<lparr>sent := sent w + Suc 0\<rparr>" by simp
    then show ?thesis by (intro exI[of _ "Suc 0"]) simp
  qed
qed

lemma callOpenAI_frame:
  "\<exists>k\<le>3. snd (callOpenAI e msgs w) = w\<lparr>oracleCalls := oracleCalls w + 1, sent := sent w + k\<rparr>"
  using callAttempts_frame[of 3 e msgs "w\<lparr>oracleCalls := oracleCalls w + 1\<rparr>"]
  by (simp add: callOpenAI_def)

lemma callOpenAI_fields [simp]:
  "npcData (snd (callOpenAI e msgs w)) = npcData w"
  "playerState (snd (callOpenAI e msgs w)) = playerState w"
  "history (snd (callOpenAI e msgs w)) = history w"
  "pruneEnabled (snd (callOpenAI e msgs w)) = pruneEnabled w"
  "sceneDescriptions (snd (callOpenAI e msgs w)) = sceneDescriptions w"
  "itemsData (snd (callOpenAI e msgs w)) = itemsData w"
  "disk (snd (callOpenAI e msgs w)) = disk w"
  "stdin (snd (callOpenAI e msgs w)) = stdin w"
  "drawn (snd (callOpenAI e msgs w)) = drawn w"
  "fsOps (snd (callOpenAI e msgs w)) = fsOps w"
  "oracleCalls (snd (callOpenAI e msgs w)) = oracleCalls w + 1"
  using callOpenAI_frame[of e msgs w] by auto

section \<open>The NPC registry\<close>

lemma ensureNpc_registered:
  "npcData w n = Some info \<Longrightarrow> ensureNpc e n w = w"
  by (simp add: ensureNpc_def)

lemma ensureNpc_fresh:
  "npcData w n = None \<Longrightarrow>
   npcData (ensureNpc e n w) = (npcData w)(n \<mapsto>
      \<lparr>Bio = fst (personaFields n (fst (callOpenAI e
                (drop (length (history w) - 6) (history w) @ [msg ''user'' (personaPrompt n)]) w))),
       Backstory = snd (personaFields n (fst (callOpenAI e
                (drop (length (history w) - 6) (history w) @ [msg ''user'' (personaPrompt n)]) w))),
       Affinity = 0\<rparr>) \<and>
   oracleCalls (ensureNpc e n w) = oracleCalls w + 1"
  by (simp add: ensureNpc_def Let_def case_prod_beta)

text \<open>
  Claim C4. The bootstrap branch of \<^verbatim>\<open>startConversation\<close> run a second time for the same
  name changes nothing at all: no oracle call is made and the entry, with its bio and
  backstory, stays as the first run left it. On a registered name the branch is the
  identity on the whole state; after it the name is registered in any case; and it
  makes one oracle call when the name was new and none otherwise.
\<close>

theorem ensureNpc_exactly_once:
  "ensureNpc e' n (ensureNpc e n w) = ensureNpc e n w \<and>
   (npcData w n = Some info \<longrightarrow> ensureNpc e n w = w) \<and>
   npcData (ensureNpc e n w) n \<noteq> None \<and>
   oracleCalls (ensureNpc e n w) = oracleCalls w + (if npcData w n = None then 1 else 0)"
proof -
  have reg: "npcData (ensureNpc e n w) n \<noteq> None"
  proof (cases "npcData w n")
    case None
    then show ?thesis using ensureNpc_fresh[of w n e] by simp
  next
    case (Some i)
    then show ?thesis by (simp add: ensureNpc_registered)
  qed
  then obtain i where "npcData (ensureNpc e n w) n = Some i" by blast
  then have twice: "ensureNpc e' n (ensureNpc e n w) = ensureNpc e n w"
    by (rule ensureNpc_registered)
  have calls: "oracleCalls (ensureNpc e n w) = oracleCalls w + (if npcData w n = None then 1 else 0)"
  proof (cases "npcData w n")
    case None
    then show ?thesis using ensureNpc_fresh[of w n e] by simp
  next
    case (Some i)
    then show ?thesis by (simp add: ensureNpc_registered)
  qed
  from reg twice calls show ?thesis by (simp add: ensureNpc_registered)
qed

theorem ensureNpc_exactly_once_witness:
  "(let w = (processStart None [])\<lparr>npcData := [''Selene'' \<mapsto>
              \<lparr>Bio = ''Selene the Librarian.'', Backstory = ''She guards old books.'', Affinity = 2\<rparr>]\<rparr>
    in npcData w ''Selene'' = Some \<lparr>Bio = ''Selene the Librarian.'', Backstory = ''She guards old books.'', Affinity = 2\<rparr> \<and>
       ensureNpc (cannedEnv ''BIO: Someone else.'') ''Selene'' w = w)"
  using ensureNpc_exactly_once [of "cannedEnv ''x''" "''Selene''" "cannedEnv ''BIO: Someone else.''"
      "(processStart None [])\<lparr>npcData := [''Selene'' \<mapsto>
              \<lparr>Bio = ''Selene the Librarian.'', Backstory = ''She guards old books.'', Affinity = 2\<rparr>]\<rparr>"
      "\<lparr>Bio = ''Selene the Librarian.'', Backstory = ''She guards old books.'', Affinity = 2\<rparr>"]
  by (simp add: Let_def)

section \<open>Blank input\<close>

text \<open>
  Claim C10. A line that is empty once trimmed does nothing in either loop. In the game
  loop the pass ends at once with the whole state as it was: no pruning, no oracle call
  (the counters are part of the state), no change of history, registry or player
  state; a pass that reads such a line from standard input only consumes the line. In
  a conversation the loop goes on with the same sub-session and the same state.
\<close>

theorem blank_line_noop:
  "TrimSpace line = [] \<Longrightarrow>
   dispatch e line w = Continue w \<and>
   gameLoopStep e (w\<lparr>stdin := line # rest\<rparr>) = Continue (w\<lparr>stdin := rest\<rparr>) \<and>
   converse e npcName conv (line # rest) w = converse e npcName conv rest w"
  by (simp add: dispatch_def gameLoopStep_def readLine_def Let_def)

theorem blank_line_noop_witness:
  "TrimSpace ('' '' @ [CHR 0x09, CHR 0x0D]) = [] \<and>
   dispatch (cannedEnv ''A reply.'') ('' '' @ [CHR 0x09, CHR 0x0D]) (processStart None [''look''])
     = Continue (processStart None [''look'']) \<and>
   converse (cannedEnv ''A reply.'') ''Selene'' [msg ''system'' ''You are Selene.'']
       [('' '' @ [CHR 0x09, CHR 0x0D]), ''goodbye''] (processStart None [])
     = converse (cannedEnv ''A reply.'') ''Selene'' [msg ''system'' ''You are Selene.'']
       [''goodbye''] (processStart None [])"
proof -
  have h: "TrimSpace ('' '' @ [CHR 0x09, CHR 0x0D]) = []"
    by (simp add: TrimSpace_def TrimFunc_def isSpace_def)
  from blank_line_noop [OF h, of "cannedEnv ''A reply.''" "processStart None [''look'']" "[''goodbye'']" "''Selene''" "[msg ''system'' ''You are Selene.'']"]
    blank_line_noop [OF h, of "cannedEnv ''A reply.''" "processStart None []" "[''goodbye'']" "''Selene''" "[msg ''system'' ''You are Selene.'']"]
    h show ?thesis by blast
qed

section \<open>The world graph\<close>

lemma adjacent_linkLocations:
  "adjacent (linkLocations a b g) x y \<longleftrightarrow>
     adjacent g x y \<or> (x = a \<and> y = b) \<or> (x = b \<and> y = a)"
  by (auto simp: adjacent_def linkLocations_def neighbours_def Let_def split: option.splits if_splits)

lemma symmetric_linkLocations: "symmetric g \<Longrightarrow> symmetric (linkLocations a b g)"
  unfolding symmetric_def adjacent_linkLocations by blast

lemma neighbours_linkLocations:
  "neighbours (linkLocations a b g) x =
     (if x = a \<and> x = b then (neighbours g x)(a \<mapsto> True)
      else if x = a then (neighbours g x)(b \<mapsto> True)
      else if x = b then (neighbours g x)(a \<mapsto> True)
      else neighbours g x)"
  by (auto simp: linkLocations_def neighbours_def Let_def split: option.splits)

lemma linkLocations_dom:
  "linkLocations a b g x = None \<longleftrightarrow> g x = None \<and> x \<noteq> a \<and> x \<noteq> b"
  by (auto simp: linkLocations_def Let_def)

lemma graph_eqI:
  assumes "\<And>x. neighbours g x = neighbours h x" and "\<And>x. g x = None \<longleftrightarrow> h x = None"
  shows "g = h"
proof
  fix x
  show "g x = h x"
    using assms(1)[of x] assms(2)[of x] by (cases "g x"; cases "h x") (simp_all add: neighbours_def)
qed

lemma linkLocations_idem: "linkLocations a b (linkLocations a b g) = linkLocations a b g"
  by (rule graph_eqI) (auto simp: neighbours_linkLocations linkLocations_dom)

lemma linkLocations_commute_idem: "linkLocations b a (linkLocations a b g) = linkLocations a b g"
  by (rule graph_eqI) (auto simp: neighbours_linkLocations linkLocations_dom)

section \<open>What each operation leaves alone\<close>

lemma list_calls_snd:
  "snd (listItems e msgs w) = snd (callOpenAI e (msgs @ [msg ''user''
            (''List, in a comma-separated list, all objects present in this scene. '' @
             ''If none, reply '' @ [CHR 0x27] @ ''None'' @ [CHR 0x27] @ ''.'')]) w)"
  "snd (listExits e msgs w) = snd (callOpenAI e (msgs @ [msg ''user''
            (''List, in a comma-separated list, all exits or directions available '' @
             ''from this scene. If none, reply '' @ [CHR 0x27] @ ''None'' @ [CHR 0x27] @ ''.'')]) w)"
  "snd (listNpcs e msgs w) = snd (callOpenAI e (msgs @ [msg ''user''
            (''List, in a comma-separated list, the FULL NAMES of all NPCs currently '' @
             ''present in this scene. If none, reply '' @ [CHR 0x27] @ ''None'' @ [CHR 0x27] @ ''.'')]) w)"
  by (simp_all add: listItems_def listExits_def listNpcs_def Let_def case_prod_beta)

lemma list_fields [simp]:
  "npcData (snd (listNpcs e msgs w)) = npcData w"
  "playerState (snd (listNpcs e msgs w)) = playerState w"
  "disk (snd (listNpcs e msgs w)) = disk w"
  "npcData (snd (listExits e msgs w)) = npcData w"
  "playerState (snd (listExits e msgs w)) = playerState w"
  "disk (snd (listExits e msgs w)) = disk w"
  "npcData (snd (listItems e msgs w)) = npcData w"
  "playerState (snd (listItems e msgs w)) = playerState w"
  "disk (snd (listItems e msgs w)) = disk w"
  by (simp_all add: list_calls_snd)

lemma printEnvironmentSummary_fields [simp]:
  "npcData (printEnvironmentSummary e msgs w) = npcData w"
  "playerState (printEnvironmentSummary e msgs w) = playerState w"
  "disk (printEnvironmentSummary e msgs w) = disk w"
  by (simp_all add: printEnvironmentSummary_def Let_def case_prod_beta)

lemma pruneHistory_fields [simp]:
  "npcData (snd (pruneHistory e H w)) = npcData w"
  "playerState (snd (pruneHistory e H w)) = playerState w"
  "disk (snd (pruneHistory e H w)) = disk w"
  by (simp_all add: pruneHistory_def Let_def case_prod_beta)

lemma Intn_fields [simp]:
  "npcData (snd (Intn e n w)) = npcData w"
  "playerState (snd (Intn e n w)) = playerState w"
  "disk (snd (Intn e n w)) = disk w"
  by (simp_all add: Intn_def)

lemma rollStats_fields [simp]:
  "npcData (snd (rollStats e ss stats w)) = npcData w"
  "disk (snd (rollStats e ss stats w)) = disk w"
  by (induction ss arbitrary: stats w) (simp_all add: Let_def case_prod_beta)

lemma initPlayerState_fields [simp]:
  "npcData (initPlayerState e w) = npcData w"
  "disk (initPlayerState e w) = disk w"
  by (simp_all add: initPlayerState_def Let_def case_prod_beta)

lemma roll_fields [simp]:
  "npcData (snd (roll e cmd w)) = npcData w"
  "playerState (snd (roll e cmd w)) = playerState w"
  "disk (snd (roll e cmd w)) = disk w"
  by (simp_all add: roll_def Let_def case_prod_beta split: option.splits)

lemma readLine_fields [simp]:
  "npcData (snd (readLine w)) = npcData w"
  "playerState (snd (readLine w)) = playerState w"
  "disk (snd (readLine w)) = disk w"
  by (simp_all add: readLine_def split: list.splits)

lemma simple_command_fields [simp]:
  "npcData (setPrune lc w) = npcData w"
  "playerState (setPrune lc w) = playerState w"
  "disk (setPrune lc w) = disk w"
  "npcData (hint e w) = npcData w"
  "playerState (hint e w) = playerState w"
  "disk (hint e w) = disk w"
  "npcData (lookAround e cmd w) = npcData w"
  "playerState (lookAround e cmd w) = playerState w"
  "disk (lookAround e cmd w) = disk w"
  "npcData (forward e cmd w) = npcData w"
  "playerState (forward e cmd w) = playerState w"
  "disk (forward e cmd w) = disk w"
  by (simp_all add: setPrune_def hint_def lookAround_def forward_def Let_def case_prod_beta)

lemma examine_fields [simp]:
  "npcData (examine e cmd target w) = npcData w"
  "disk (examine e cmd target w) = disk w"
  "playerState (examine e cmd target w) =
     (playerState w)\<lparr>Journal := Journal (playerState w) @ [''Examined '' @ target @ ''.'']\<rparr>"
  by (simp_all add: examine_def Let_def case_prod_beta)

lemma travel_fields [simp]:
  "npcData (travel e cmd dest w) = npcData w"
  "disk (travel e cmd dest w) = disk w"
  "playerState (travel e cmd dest w) = move dest (playerState w)"
  by (simp_all add: travel_def Let_def case_prod_beta)

lemma saveGame_fields [simp]:
  "npcData (saveGame e msgs w) = npcData w"
  "playerState (saveGame e msgs w) = playerState w"
  "disk (saveGame e msgs w) =
     (if fsOk e (fsOps w)
      then Some \<lparr>NpcData = npcData w, SavedPlayerState = playerState w, History = msgs\<rparr>
      else disk w)"
  by (simp_all add: saveGame_def Let_def)

lemma loadGame_cases:
  "(fst (loadGame e w) = None \<and> npcData (snd (loadGame e w)) = npcData w \<and>
      playerState (snd (loadGame e w)) = playerState w \<and> disk (snd (loadGame e w)) = disk w) \<or>
   (\<exists>d. disk w = Some d \<and> fst (loadGame e w) = Some (History d) \<and>
      npcData (snd (loadGame e w)) = NpcData d \<and>
      playerState (snd (loadGame e w)) = SavedPlayerState d \<and> disk (snd (loadGame e w)) = disk w)"
  by (simp add: loadGame_def Let_def split: option.splits)

lemma ensureNpc_fields [simp]:
  "playerState (ensureNpc e n w) = playerState w"
  "disk (ensureNpc e n w) = disk w"
  "stdin (ensureNpc e n w) = stdin w"
  by (simp_all add: ensureNpc_def Let_def case_prod_beta split: option.splits)

lemma bumpAffinity_fields [simp]:
  "playerState (bumpAffinity n w) = playerState w"
  "disk (bumpAffinity n w) = disk w"
  by (simp_all add: bumpAffinity_def split: option.splits)

lemma converse_frame:
  "converse e n conv ls w = Some (rest, w') \<Longrightarrow>
     playerState w' = playerState w \<and> disk w' = disk w \<and>
     npcData w' = npcData (bumpAffinity n w)"
proof (induction ls arbitrary: conv w)
  case Nil
  then show ?case by simp
next
  case (Cons l ls)
  show ?case
  proof (cases "TrimSpace l = []")
    case True
    with Cons show ?thesis by simp
  next
    case False
    let ?conv1 = "conv @ [msg ''user'' (TrimSpace l)]"
    let ?w1 = "snd (callOpenAI e ?conv1 w)"
    show ?thesis
    proof (cases "isFarewell (ToLower (TrimSpace l))")
      case True
      with False Cons.prems have "w' = bumpAffinity n ?w1"
        by (simp add: Let_def case_prod_beta)
      then show ?thesis by (simp add: bumpAffinity_def split: option.splits)
    next
      case f: False
      with False Cons.prems have
        "converse e n (?conv1 @ [msg ''assistant'' (fst (callOpenAI e ?conv1 w))]) ls ?w1 = Some (rest, w')"
        by (simp add: Let_def case_prod_beta)
      from Cons.IH[OF this] show ?thesis by (simp add: bumpAffinity_def split: option.splits)
    qed
  qed
qed

lemma startConversation_frame:
  assumes "startConversation e n w = Some w'"
  shows "playerState w' = playerState w \<and> disk w' = disk w \<and>
         npcData w' = npcData (bumpAffinity n (ensureNpc e n w))"
proof -
  from assms obtain info rest w2 where
    "npcData (ensureNpc e n w) n = Some info"
    and c: "converse e n [msg ''system'' (conversationPrompt n info)] (stdin (ensureNpc e n w)) (ensureNpc e n w) = Some (rest, w2)"
    and w': "w' = w2\<lparr>stdin := rest\<rparr>"
    by (auto simp: startConversation_def Let_def split: option.splits)
  from converse_frame[OF c] w' show ?thesis by simp
qed

section \<open>The invariants are kept\<close>

lemma contains_set: "contains xs s \<longleftrightarrow> s \<in> set xs"
  by (induction xs) auto

lemma move_fields:
  "CurrentLocation (move dest ps) = dest"
  "dest \<in> set (VisitedLocations (move dest ps))"
  "set (VisitedLocations ps) \<subseteq> set (VisitedLocations (move dest ps))"
  "Stats (move dest ps) = Stats ps"
  "MapGraph (move dest ps) =
     (if CurrentLocation ps \<noteq> [] then linkLocations (CurrentLocation ps) dest (MapGraph ps)
      else MapGraph ps)"
  by (auto simp: move_def Let_def contains_set)

lemma soundPlayer_move: "soundPlayer ps \<Longrightarrow> soundPlayer (move dest ps)"
  by (simp add: soundPlayer_def visitedCurrent_def statsInRange_def move_fields
      symmetric_linkLocations)

lemma soundPlayer_Journal [simp]: "soundPlayer (ps\<lparr>Journal := j\<rparr>) = soundPlayer ps"
  by (simp add: soundPlayer_def visitedCurrent_def statsInRange_def)

lemma symmetric_empty: "symmetric Map.empty"
  by (simp add: symmetric_def adjacent_def neighbours_def)

lemma initPlayerState_playerState:
  "playerState (initPlayerState e w) =
     \<lparr>Stats = fst (rollStats e statNames Map.empty w), Inventory = [], Journal = [],
      VisitedLocations = [], MapGraph = Map.empty, CurrentLocation = []\<rparr>"
  by (simp add: initPlayerState_def Let_def case_prod_beta)

lemma newGame_fields:
  "disk (newGame e w) = disk w"
  "npcData (newGame e w) = npcData w"
  "soundPlayer (playerState (newGame e w))"
proof -
  show "disk (newGame e w) = disk w" "npcData (newGame e w) = npcData w"
    by (simp_all add: newGame_def Let_def case_prod_beta)
  have r: "\<And>s v. fst (rollStats e statNames Map.empty w) s = Some v \<Longrightarrow> 8 \<le> v \<and> v \<le> 18"
    using rollStats_range[of e statNames Map.empty w] by auto
  show "soundPlayer (playerState (newGame e w))"
    using r by (simp add: newGame_def Let_def case_prod_beta initPlayerState_playerState
        soundPlayer_def visitedCurrent_def statsInRange_def symmetric_empty)
qed

lemma sound_loadGame:
  assumes "sound w"
  shows "soundPlayer (playerState (snd (loadGame e w)))"
    and "disk (snd (loadGame e w)) = disk w"
  using assms loadGame_cases[of e w] by (auto simp: sound_def)

lemma command_cases:
  assumes "command e cmd lc w = r"
  obtains
    (quit) "r = Quit w"
  | (idle) "r = Continue w"
  | (save) "r = Continue (saveGame e (history w) w)"
  | (load) "lc = ''load''" "r = Continue (loadCommand e w)"
  | (hint) "r = Continue (hint e w)"
  | (roll) "r = Continue (snd (roll e cmd w))"
  | (list) "r = Continue (snd (listNpcs e (history w) w))"
  | (talk) "HasPrefix lc ''talk to ''" "r = talkTo e cmd w"
  | (look) "r = Continue (lookAround e cmd w)"
  | (tell) "r = Continue (narrate e cmd lc w)"
  using assms unfolding command_def
  by (simp split: if_splits)

lemma loadCommand_fields:
  "playerState (loadCommand e w) = playerState (snd (loadGame e w))"
  "disk (loadCommand e w) = disk w"
  "npcData (loadCommand e w) = npcData (snd (loadGame e w))"
  using loadGame_cases[of e w]
  by (auto simp: loadCommand_def split: prod.splits option.splits)

lemma sound_loadCommand: "sound w \<Longrightarrow> sound (loadCommand e w)"
  using sound_loadGame[of w e] by (simp add: sound_def loadCommand_fields)

lemma talkTo_frame:
  assumes "talkTo e cmd w = Continue w'"
  shows "playerState w' = playerState w \<and> disk w' = disk w"
proof (cases "TrimSpace (drop 8 cmd) = []")
  case True
  with assms show ?thesis by (simp add: talkTo_def)
next
  case False
  with assms have "startConversation e (TrimSpace (drop 8 cmd)) w = Some w'"
    by (simp add: talkTo_def Let_def split: option.splits)
  from startConversation_frame[OF this] show ?thesis by simp
qed

lemma narrate_fields:
  "npcData (narrate e cmd lc w) = npcData w"
  "disk (narrate e cmd lc w) = disk w"
  by (simp_all add: narrate_def Let_def split: option.splits)

lemma soundPlayer_narrate:
  "soundPlayer (playerState w) \<Longrightarrow> soundPlayer (playerState (narrate e cmd lc w))"
  by (simp add: narrate_def Let_def soundPlayer_move split: option.splits)

lemma sound_command:
  assumes "sound w" and "command e cmd lc w = Continue w'"
  shows "sound w'"
  using assms(2)
proof (cases rule: command_cases)
  case save
  with assms(1) show ?thesis by (simp add: sound_def)
next
  case load
  with assms(1) show ?thesis by (simp add: sound_loadCommand)
next
  case talk
  with assms(2) have "talkTo e cmd w = Continue w'" by simp
  from talkTo_frame[OF this] assms(1) show ?thesis by (simp add: sound_def)
next
  case tell
  with assms(1) show ?thesis by (simp add: sound_def narrate_fields soundPlayer_narrate)
next
  case quit
  with assms(2) show ?thesis by simp
next
  case idle
  with assms(1) show ?thesis by simp
next
  case hint
  with assms(1) show ?thesis by (simp add: sound_def)
next
  case roll
  with assms(1) show ?thesis by (simp add: sound_def)
next
  case list
  with assms(1) show ?thesis by (simp add: sound_def)
next
  case look
  with assms(1) show ?thesis by (simp add: sound_def)
qed

lemma pruneStep_fields [simp]:
  "npcData (pruneStep e w) = npcData w"
  "playerState (pruneStep e w) = playerState w"
  "disk (pruneStep e w) = disk w"
  by (simp_all add: pruneStep_def case_prod_beta)

lemma dispatch_cases:
  assumes "dispatch e line w = r"
  obtains
    (blank) "TrimSpace line = []" "r = Continue w"
  | (prune) "r = Continue (setPrune (ToLower (TrimSpace line)) w)"
  | (cmd) "TrimSpace line \<noteq> []"
          "r = command e (TrimSpace line) (ToLower (TrimSpace line)) (pruneStep e w)"
  using assms unfolding dispatch_def Let_def
  by (simp split: if_splits)

lemma sound_dispatch:
  assumes "sound w" and "dispatch e line w = Continue w'"
  shows "sound w'"
  using assms(2)
proof (cases rule: dispatch_cases)
  case blank
  with assms(1) show ?thesis by simp
next
  case prune
  with assms(1) show ?thesis by (simp add: sound_def)
next
  case cmd
  have "sound (pruneStep e w)" using assms(1) by (simp add: sound_def)
  then show ?thesis using cmd(2)[symmetric] by (rule sound_command)
qed

lemma sound_gameLoopStep:
  assumes "sound w" and "gameLoopStep e w = Continue w'"
  shows "sound w'"
proof -
  have "sound (snd (readLine w))" using assms(1) by (simp add: sound_def)
  moreover have "dispatch e (fst (readLine w)) (snd (readLine w)) = Continue w'"
    using assms(2) by (simp add: gameLoopStep_def case_prod_beta)
  ultimately show ?thesis by (rule sound_dispatch)
qed

lemma sound_processStart:
  "(case d of None \<Rightarrow> True | Some s \<Rightarrow> soundPlayer (SavedPlayerState s)) \<Longrightarrow>
   sound (processStart d input)"
  by (simp add: sound_def processStart_def soundPlayer_def visitedCurrent_def statsInRange_def
      symmetric_empty)

lemma sound_newGame:
  "(case disk w of None \<Rightarrow> True | Some s \<Rightarrow> soundPlayer (SavedPlayerState s)) \<Longrightarrow>
   sound (newGame e w)"
  by (simp add: sound_def newGame_fields)

lemma menuLoad_disk [simp]: "disk (snd (menuLoad e w)) = disk w"
  using loadGame_cases[of e w]
  by (auto simp: menuLoad_def split: prod.splits option.splits)

lemma menuLoad_loaded:
  assumes "fst (menuLoad e w) \<noteq> []"
  shows "playerState (snd (menuLoad e w)) = playerState (snd (loadGame e w))"
  using assms by (auto simp: menuLoad_def split: prod.splits option.splits)

lemma startup_cases:
  assumes "startup e w = Continue w'"
  obtains
    (new) w2 where "w' = newGame e w2" "disk w2 = disk w"
  | (loaded) "playerState w' = playerState (snd (loadGame e (snd (readLine w))))" "disk w' = disk w"
proof (cases "TrimSpace (fst (readLine w)) = ''2''")
  case True
  let ?m = "menuLoad e (snd (readLine w))"
  from assms True have r: "(if fst ?m = [] then Continue (newGame e (snd ?m)) else Continue (snd ?m)) = Continue w'"
    by (simp add: startup_def Let_def case_prod_beta split: if_splits)
  show ?thesis
  proof (cases "fst ?m = []")
    case True
    with r have "w' = newGame e (snd ?m)" by simp
    moreover have "disk (snd ?m) = disk w" by simp
    ultimately show ?thesis by (rule new)
  next
    case False
    with r have "w' = snd ?m" by simp
    with menuLoad_loaded[OF False] show ?thesis by (intro loaded) simp_all
  qed
next
  case False
  with assms have "w' = newGame e (snd (readLine w))"
    by (simp add: startup_def Let_def case_prod_beta split: if_splits)
  moreover have "disk (snd (readLine w)) = disk w" by simp
  ultimately show ?thesis by (rule new)
qed

lemma sound_startup:
  assumes "sound w" and "startup e w = Continue w'"
  shows "sound w'"
  using assms(2)
proof (cases rule: startup_cases)
  case (new w2)
  with assms(1) show ?thesis by (simp add: sound_def newGame_fields)
next
  case loaded
  have "sound (snd (readLine w))" using assms(1) by (simp add: sound_def)
  from sound_loadGame(1)[OF this, of e] loaded assms(1) show ?thesis by (simp add: sound_def)
qed

lemma reachable_sound: "reachable w \<Longrightarrow> sound w"
proof (induction rule: reachable.induct)
  case (first e input w)
  have "sound (processStart None input)" by (simp add: sound_processStart)
  then show ?case using first by (rule sound_startup)
next
  case (again w0 e input w)
  then have "sound (processStart (disk w0) input)"
    by (intro sound_processStart) (simp add: sound_def)
  then show ?case using again.hyps(2) by (rule sound_startup)
next
  case (step w0 e w)
  then show ?case by (auto intro: sound_gameLoopStep)
qed

section \<open>The registry under conversations and commands\<close>

lemma converse_completes:
  "(converse e n conv ls w \<noteq> None) = (\<exists>l\<in>set ls. isFarewell (ToLower (TrimSpace l)))"
proof (induction ls arbitrary: conv w)
  case Nil
  then show ?case by simp
next
  case (Cons l ls)
  have nf: "\<not> isFarewell (ToLower [])" by (simp add: isFarewell_def ToLower_def)
  show ?case
  proof (cases "TrimSpace l = []")
    case True
    with Cons nf show ?thesis by simp
  next
    case False
    then show ?thesis using Cons by (simp add: Let_def case_prod_beta)
  qed
qed

lemma converse_calls:
  "converse e n conv ls w = Some (rest, w') \<Longrightarrow> oracleCalls w < oracleCalls w'"
proof (induction ls arbitrary: conv w)
  case Nil
  then show ?case by simp
next
  case (Cons l ls)
  show ?case
  proof (cases "TrimSpace l = []")
    case True
    with Cons show ?thesis by simp
  next
    case False
    let ?conv1 = "conv @ [msg ''user'' (TrimSpace l)]"
    let ?w1 = "snd (callOpenAI e ?conv1 w)"
    show ?thesis
    proof (cases "isFarewell (ToLower (TrimSpace l))")
      case True
      with False Cons.prems have "w' = bumpAffinity n ?w1"
        by (simp add: Let_def case_prod_beta)
      then show ?thesis by (simp add: bumpAffinity_def split: option.splits)
    next
      case f: False
      with False Cons.prems have
        "converse e n (?conv1 @ [msg ''assistant'' (fst (callOpenAI e ?conv1 w))]) ls ?w1 = Some (rest, w')"
        by (simp add: Let_def case_prod_beta)
      from Cons.IH[OF this] show ?thesis by simp
    qed
  qed
qed

lemma ensureNpc_calls: "oracleCalls w \<le> oracleCalls (ensureNpc e n w)"
  using ensureNpc_fresh[of w n e] by (cases "npcData w n") (simp_all add: ensureNpc_registered)

lemma ensureNpc_others: "m \<noteq> n \<Longrightarrow> npcData (ensureNpc e n w) m = npcData w m"
  using ensureNpc_fresh[of w n e] by (cases "npcData w n") (simp_all add: ensureNpc_registered)

lemma startConversation_completes:
  "(startConversation e n w \<noteq> None) = (\<exists>l\<in>set (stdin w). isFarewell (ToLower (TrimSpace l)))"
proof -
  obtain info where i: "npcData (ensureNpc e n w) n = Some info"
    using ensureNpc_fresh[of w n e] by (cases "npcData w n") (auto simp: ensureNpc_registered)
  have "(startConversation e n w \<noteq> None) =
        (converse e n [msg ''system'' (conversationPrompt n info)] (stdin w) (ensureNpc e n w) \<noteq> None)"
    using i by (simp add: startConversation_def Let_def split: option.splits)
  then show ?thesis by (simp only: converse_completes)
qed

lemma startConversation_registry:
  assumes "startConversation e n w = Some w'"
  shows "(case npcData w n of
            Some i \<Rightarrow> npcData w' = (npcData w)(n \<mapsto> i\<lparr>Affinity := Affinity i + 1\<rparr>)
          | None \<Rightarrow> (\<exists>b s. npcData w' = (npcData w)(n \<mapsto> \<lparr>Bio = b, Backstory = s, Affinity = 1\<rparr>))) \<and>
         oracleCalls w < oracleCalls w'"
proof -
  from startConversation_frame[OF assms]
  have eq: "npcData w' = npcData (bumpAffinity n (ensureNpc e n w))" by simp
  have reg: "(case npcData w n of
            Some i \<Rightarrow> npcData w' = (npcData w)(n \<mapsto> i\<lparr>Affinity := Affinity i + 1\<rparr>)
          | None \<Rightarrow> (\<exists>b s. npcData w' = (npcData w)(n \<mapsto> \<lparr>Bio = b, Backstory = s, Affinity = 1\<rparr>)))"
  proof (cases "npcData w n")
    case None
    from ensureNpc_fresh[OF None, of e] obtain b s where
      "npcData (ensureNpc e n w) = (npcData w)(n \<mapsto> \<lparr>Bio = b, Backstory = s, Affinity = 0\<rparr>)"
      by blast
    then have "npcData w' = (npcData w)(n \<mapsto> \<lparr>Bio = b, Backstory = s, Affinity = 1\<rparr>)"
      unfolding eq by (simp add: bumpAffinity_def)
    with None show ?thesis by auto
  next
    case (Some i)
    then show ?thesis unfolding eq by (simp add: ensureNpc_registered bumpAffinity_def)
  qed
  from assms obtain info rest w2 where
    c: "converse e n [msg ''system'' (conversationPrompt n info)] (stdin (ensureNpc e n w)) (ensureNpc e n w) = Some (rest, w2)"
    and w': "w' = w2\<lparr>stdin := rest\<rparr>"
    by (auto simp: startConversation_def Let_def split: option.splits)
  from converse_calls[OF c] ensureNpc_calls[of w e n] w' have "oracleCalls w < oracleCalls w'" by simp
  with reg show ?thesis by blast
qed

lemma dispatch_registry:
  assumes "dispatch e line w = r"
  shows "(\<forall>w'. r = Quit w' \<longrightarrow> npcData w' = npcData w) \<and>
         (\<forall>w'. r = Continue w' \<longrightarrow>
            npcData w' = npcData w \<or>
            (ToLower (TrimSpace line) = ''load'' \<and> (\<exists>d. disk w = Some d \<and> npcData w' = NpcData d)) \<or>
            (HasPrefix (ToLower (TrimSpace line)) ''talk to '' \<and>
             startConversation e (TrimSpace (drop 8 (TrimSpace line))) (pruneStep e w) = Some w'))"
  using assms
proof (cases rule: dispatch_cases)
  case blank
  then show ?thesis by simp
next
  case prune
  then show ?thesis by simp
next
  case cmd
  let ?cmd = "TrimSpace line" and ?lc = "ToLower (TrimSpace line)" and ?w1 = "pruneStep e w"
  from cmd(2)[symmetric] show ?thesis
  proof (cases rule: command_cases)
    case load
    with loadGame_cases[of e ?w1] show ?thesis by (auto simp: loadCommand_fields)
  next
    case talk
    then show ?thesis by (auto simp: talkTo_def Let_def split: if_splits option.splits)
  qed (simp_all add: narrate_fields)
qed

section \<open>The sample sessions\<close>

lemma Intn_stdin [simp]: "stdin (snd (Intn e n w)) = stdin w"
  by (simp add: Intn_def)

lemma rollStats_stdin [simp]: "stdin (snd (rollStats e ss stats w)) = stdin w"
  by (induction ss arbitrary: stats w) (simp_all add: Let_def case_prod_beta)

lemma initPlayerState_stdin [simp]: "stdin (initPlayerState e w) = stdin w"
  by (simp add: initPlayerState_def Let_def case_prod_beta)

lemma readLine_initPlayerState:
  "fst (readLine (initPlayerState e w)) = fst (readLine w)"
  by (simp add: readLine_def split: list.splits)

lemma newGame_location:
  "CurrentLocation (playerState (newGame e w)) =
     (if TrimSpace (fst (readLine w)) = [] then ''Year 1372, in the misty Isle of Everdawn''
      else TrimSpace (fst (readLine w)))"
  "CurrentLocation (playerState (newGame e w)) \<noteq> []"
  "visitedCurrent (playerState (newGame e w))"
  "stdin (newGame e w) = drop 1 (stdin w)"
  by (simp_all add: newGame_def Let_def case_prod_beta readLine_initPlayerState visitedCurrent_def)
     (simp_all add: readLine_def split: list.splits)

lemma startup_new:
  "apiKey e \<noteq> [] \<Longrightarrow> TrimSpace c \<noteq> ''2'' \<Longrightarrow> TrimSpace c \<noteq> ''3'' \<Longrightarrow>
   startup e (processStart None (c # rest)) = Continue (started e (c # rest))"
  by (simp add: startup_def started_def Let_def readLine_def processStart_def)

lemma TrimSpace_samples:
  "TrimSpace ''1'' = ''1''" "TrimSpace ''Harbor'' = ''Harbor''"
  "TrimSpace ''go to market'' = ''go to market''" "TrimSpace ''look'' = ''look''"
  by (simp_all add: TrimSpace_def TrimFunc_def isSpace_def)

lemma started_reachable:
  "reachable (started (cannedEnv r) (''1'' # rest))"
  by (rule reachable.first[of "cannedEnv r" "''1'' # rest"])
     (simp add: startup_new TrimSpace_samples cannedEnv_def)

lemma started_location:
  "CurrentLocation (playerState (started e (c # ''Harbor'' # rest))) = ''Harbor''"
  by (simp add: started_def newGame_location readLine_def processStart_def TrimSpace_samples)

lemma dispatch_go_to_market:
  "dispatch e ''go to market'' w = Continue (travel e ''go to market'' ''Market'' (pruneStep e w))"
  by (simp add: dispatch_def command_def narrate_def examinePrefix_def destination_def
      titleCase_def titleWord_def Fields_def TrimSpace_samples isSpace_def HasPrefix_def
      ToLower_def ToUpper_def toLowerChar_def toUpperChar_def isUpperAscii_def isLowerAscii_def Let_def)

lemma tourWorld_reachable: "reachable tourWorld"
proof -
  let ?e = "cannedEnv ''Hi.''"
  have r0: "reachable (started ?e tourInput)"
    unfolding tourInput_def by (rule started_reachable)
  have "stdin (started ?e tourInput) = [''go to market'']"
    by (simp add: started_def newGame_location readLine_def processStart_def tourInput_def)
  then have "gameLoopStep ?e (started ?e tourInput) = Continue tourWorld"
    by (simp add: gameLoopStep_def readLine_def dispatch_go_to_market tourWorld_def)
  with r0 show ?thesis by (rule reachable.step)
qed

lemma tourWorld_player:
  "playerState tourWorld = move ''Market'' (playerState (started (cannedEnv ''Hi.'') tourInput))"
  by (simp add: tourWorld_def)

section \<open>Movement\<close>

text \<open>
  Claim C2. A movement from a non-empty current location \<open>a\<close> to \<open>b\<close> leaves \<open>b\<close> among
  the neighbours of \<open>a\<close> and \<open>a\<close> among those of \<open>b\<close>. Doing it again changes nothing:
  inserting the edge twice gives the same map as inserting it once, and going back to
  \<open>a\<close> and then to \<open>b\<close> again leaves the map as it was after the first move. The
  movement command changes the player state by exactly this operation. In every state
  reachable at the head of the game loop (the save file being absent or written by
  the program) the map is symmetric.
\<close>

theorem move_graph_symmetric:
  "(CurrentLocation ps \<noteq> [] \<longrightarrow>
      adjacent (MapGraph (move b ps)) (CurrentLocation ps) b \<and>
      adjacent (MapGraph (move b ps)) b (CurrentLocation ps) \<and>
      MapGraph (move b (move (CurrentLocation ps) (move b ps))) = MapGraph (move b ps)) \<and>
   linkLocations a b (linkLocations a b g) = linkLocations a b g \<and>
   playerState (travel e cmd b w0) = move b (playerState w0) \<and>
   (reachable w \<longrightarrow> symmetric (MapGraph (playerState w)))"
proof -
  have edge: "adjacent (MapGraph (move b ps)) (CurrentLocation ps) b \<and>
      adjacent (MapGraph (move b ps)) b (CurrentLocation ps)" if "CurrentLocation ps \<noteq> []"
    using that by (simp add: move_fields adjacent_linkLocations)
  have again: "MapGraph (move b (move (CurrentLocation ps) (move b ps))) = MapGraph (move b ps)"
    if "CurrentLocation ps \<noteq> []"
    using that by (simp add: move_fields linkLocations_idem linkLocations_commute_idem)
  have sym: "symmetric (MapGraph (playerState w))" if "reachable w"
    using reachable_sound[OF that] by (simp add: sound_def soundPlayer_def)
  from edge again sym show ?thesis by (simp add: linkLocations_idem)
qed

theorem move_graph_symmetric_witness:
  "CurrentLocation (playerState (started (cannedEnv ''Hi.'') tourInput)) = ''Harbor'' \<and>
   reachable tourWorld \<and>
   adjacent (MapGraph (playerState tourWorld)) ''Harbor'' ''Market'' \<and>
   adjacent (MapGraph (playerState tourWorld)) ''Market'' ''Harbor'' \<and>
   symmetric (MapGraph (playerState tourWorld))"
proof -
  let ?ps = "playerState (started (cannedEnv ''Hi.'') tourInput)"
  have loc: "CurrentLocation ?ps = ''Harbor''"
    unfolding tourInput_def by (rule started_location)
  then have ne: "CurrentLocation ?ps \<noteq> []" by simp
  from move_graph_symmetric [of ?ps "''Market''" "''Harbor''" Map.empty "cannedEnv ''Hi.''"
      "''go to market''" "processStart None []" tourWorld]
    ne loc tourWorld_reachable
  show ?thesis by (simp add: tourWorld_player)
qed

text \<open>
  Claim C7. In every state reachable at the head of the game loop (the save file being
  absent or written by the program), a current location that is not empty is among the
  visited locations. A new game sets a non-empty current location and records it as
  visited, and every movement ends with its destination recorded as visited.
\<close>

theorem current_location_visited:
  "(reachable w \<longrightarrow> visitedCurrent (playerState w)) \<and>
   CurrentLocation (playerState (newGame e w0)) \<noteq> [] \<and>
   visitedCurrent (playerState (newGame e w0)) \<and>
   visitedCurrent (move dest ps)"
proof -
  have "visitedCurrent (playerState w)" if "reachable w"
    using reachable_sound[OF that] by (simp add: sound_def soundPlayer_def)
  moreover have "visitedCurrent (move dest ps)"
    by (simp add: visitedCurrent_def move_fields)
  ultimately show ?thesis by (simp add: newGame_location)
qed

theorem current_location_visited_witness:
  "reachable tourWorld \<and> CurrentLocation (playerState tourWorld) = ''Market'' \<and>
   ''Market'' \<in> set (VisitedLocations (playerState tourWorld))"
proof -
  have loc: "CurrentLocation (playerState tourWorld) = ''Market''"
    by (simp add: tourWorld_player move_fields)
  from current_location_visited [of tourWorld "cannedEnv ''Hi.''" "processStart None []" "''Market''"
      "playerState tourWorld"] tourWorld_reachable
  have "visitedCurrent (playerState tourWorld)" by blast
  with loc tourWorld_reachable show ?thesis by (simp add: visitedCurrent_def)
qed

section \<open>Affinity\<close>

text \<open>
  Claim C3, amended. A conversation returns exactly when one of the lines still to be
  read is \<^verbatim>\<open>goodbye\<close>, \<^verbatim>\<open>exit\<close> or \<^verbatim>\<open>bye\<close> once trimmed and lower-cased. When it returns,
  the affinity of the NPC spoken to has grown by exactly 1 (from 0 for an NPC created
  by this conversation), its bio and backstory and all other NPCs are as before, and
  at least one oracle call was made. A pass of the game loop changes the registry only
  through such a conversation or through \<^verbatim>\<open>load\<close>, which replaces the whole registry by
  the saved one; every other command leaves the registry as it is.
\<close>

theorem registry_changes:
  "((startConversation e n w \<noteq> None) = (\<exists>l\<in>set (stdin w). isFarewell (ToLower (TrimSpace l)))) \<and>
   (startConversation e n w = Some w' \<longrightarrow>
      (case npcData w n of
         Some i \<Rightarrow> npcData w' = (npcData w)(n \<mapsto> i\<lparr>Affinity := Affinity i + 1\<rparr>)
       | None \<Rightarrow> (\<exists>b s. npcData w' = (npcData w)(n \<mapsto> \<lparr>Bio = b, Backstory = s, Affinity = 1\<rparr>))) \<and>
      (\<forall>m. m \<noteq> n \<longrightarrow> npcData w' m = npcData w m) \<and>
      oracleCalls w < oracleCalls w') \<and>
   (dispatch e line w = Quit w'' \<longrightarrow> npcData w'' = npcData w) \<and>
   (dispatch e line w = Continue w'' \<longrightarrow>
      npcData w'' = npcData w \<or>
      (ToLower (TrimSpace line) = ''load'' \<and> (\<exists>d. disk w = Some d \<and> npcData w'' = NpcData d)) \<or>
      (HasPrefix (ToLower (TrimSpace line)) ''talk to '' \<and>
       startConversation e (TrimSpace (drop 8 (TrimSpace line))) (pruneStep e w) = Some w''))"
proof -
  have conv: "(case npcData w n of
         Some i \<Rightarrow> npcData w' = (npcData w)(n \<mapsto> i\<lparr>Affinity := Affinity i + 1\<rparr>)
       | None \<Rightarrow> (\<exists>b s. npcData w' = (npcData w)(n \<mapsto> \<lparr>Bio = b, Backstory = s, Affinity = 1\<rparr>))) \<and>
      (\<forall>m. m \<noteq> n \<longrightarrow> npcData w' m = npcData w m) \<and>
      oracleCalls w < oracleCalls w'" if h: "startConversation e n w = Some w'"
  proof -
    note r = startConversation_registry[OF h]
    have "npcData w' m = npcData w m" if "m \<noteq> n" for m
      using r that by (cases "npcData w n") auto
    with r show ?thesis by blast
  qed
  from dispatch_registry[of e line w "dispatch e line w"]
  have disp: "(dispatch e line w = Quit w'' \<longrightarrow> npcData w'' = npcData w) \<and>
   (dispatch e line w = Continue w'' \<longrightarrow>
      npcData w'' = npcData w \<or>
      (ToLower (TrimSpace line) = ''load'' \<and> (\<exists>d. disk w = Some d \<and> npcData w'' = NpcData d)) \<or>
      (HasPrefix (ToLower (TrimSpace line)) ''talk to '' \<and>
       startConversation e (TrimSpace (drop 8 (TrimSpace line))) (pruneStep e w) = Some w''))"
    by blast
  from conv disp startConversation_completes[of e n w] show ?thesis by blast
qed

lemma dispatch_look:
  "dispatch e ''look'' w = Continue (lookAround e ''look'' (pruneStep e w))"
  by (simp add: dispatch_def command_def TrimSpace_samples HasPrefix_def
      ToLower_def toLowerChar_def isUpperAscii_def Let_def)

lemma farewell_sample: "isFarewell (ToLower (TrimSpace ''Goodbye''))"
  by (simp add: isFarewell_def ToLower_def toLowerChar_def isUpperAscii_def
      TrimSpace_def TrimFunc_def isSpace_def)

theorem registry_changes_witness:
  "(\<exists>w'. startConversation (cannedEnv ''Hi.'') ''Selene'' (processStart None [''Goodbye'']) = Some w' \<and>
         affinityOf w' ''Selene'' = Some 1) \<and>
   dispatch (cannedEnv ''Hi.'') ''look'' (processStart None [''Goodbye''])
     = Continue (lookAround (cannedEnv ''Hi.'') ''look''
                   (pruneStep (cannedEnv ''Hi.'') (processStart None [''Goodbye'']))) \<and>
   npcData (lookAround (cannedEnv ''Hi.'') ''look''
              (pruneStep (cannedEnv ''Hi.'') (processStart None [''Goodbye''])))
     = npcData (processStart None [''Goodbye''])"
proof -
  let ?e = "cannedEnv ''Hi.''" and ?w = "processStart None [''Goodbye'']"
  let ?w2 = "lookAround ?e ''look'' (pruneStep ?e ?w)"
  have far: "\<exists>l\<in>set (stdin ?w). isFarewell (ToLower (TrimSpace l))"
    by (simp add: processStart_def farewell_sample)
  have d: "dispatch ?e ''look'' ?w = Continue ?w2" by (rule dispatch_look)
  have nl: "ToLower (TrimSpace ''look'') \<noteq> ''load''"
    and nt: "\<not> HasPrefix (ToLower (TrimSpace ''look'')) ''talk to ''"
    by (simp_all add: TrimSpace_samples HasPrefix_def ToLower_def toLowerChar_def isUpperAscii_def)
  have none: "npcData ?w ''Selene'' = None" by (simp add: processStart_def)
  {
    fix w'
    assume s: "startConversation ?e ''Selene'' ?w = Some w'"
    from registry_changes [of ?e "''Selene''" ?w w' "''look''" ?w2] s none
    have "\<exists>b s. npcData w' = (npcData ?w)(''Selene'' \<mapsto> \<lparr>Bio = b, Backstory = s, Affinity = 1\<rparr>)"
      by simp
    then have "affinityOf w' ''Selene'' = Some 1" by (auto simp: affinityOf_def)
  } note aff = this
  from registry_changes [of ?e "''Selene''" ?w undefined "''look''" ?w2] far
  have "startConversation ?e ''Selene'' ?w \<noteq> None" by blast
  then obtain w' where s: "startConversation ?e ''Selene'' ?w = Some w'" by blast
  from registry_changes [of ?e "''Selene''" ?w w' "''look''" ?w2] d nl nt
  have "npcData ?w2 = npcData ?w" by blast
  with aff[OF s] s d show ?thesis by blast
qed

end
